theory Spec2Isabelle
  imports Main "HOL-Library.Word"
begin

unbundle bit_operations_syntax

section \<open>Machine types and constants of 64drive.h\<close>

text \<open>
  \<open>uint8_t\<close> and \<open>uint32_t\<close> are words. The 64-bit \<open>int64_t\<close> sizes and the
  \<open>int\<close> results of the libftdi calls are embedded in \<open>int\<close>: the running total of a
  transfer never exceeds \<open>size + 2^31\<close>, so for every size a file can have no
  signed overflow occurs and the embedding is exact.
\<close>

type_synonym u8 = "8 word"
type_synonym u32 = "32 word"

definition DEV_MAGIC :: u32 where "DEV_MAGIC = 0x55444556"
definition DEV_CMD_LOADRAM :: u8 where "DEV_CMD_LOADRAM = 0x20"
definition DEV_CMD_DUMPRAM :: u8 where "DEV_CMD_DUMPRAM = 0x30"
definition DEV_CMD_SETCIC :: u8 where "DEV_CMD_SETCIC = 0x72"
definition DEV_CMD_GETVER :: u8 where "DEV_CMD_GETVER = 0x80"

text \<open>The anonymous CIC enum of 64drive.h and the table \<open>cic_types\<close> of main.c
  (number, enum value), without the description strings and the terminator.\<close>

definition CIC_6101 :: int where "CIC_6101 = 0"
definition CIC_6102 :: int where "CIC_6102 = 1"
definition CIC_7101 :: int where "CIC_7101 = 2"
definition CIC_7102 :: int where "CIC_7102 = 3"
definition CIC_X103 :: int where "CIC_X103 = 4"
definition CIC_X105 :: int where "CIC_X105 = 5"
definition CIC_X106 :: int where "CIC_X106 = 6"
definition CIC_5101 :: int where "CIC_5101 = 7"
definition CIC_LAST :: int where "CIC_LAST = 8"

definition cic_types :: "(int \<times> int) list" where
  "cic_types =
     [(6101, CIC_6101), (6102, CIC_6102), (7101, CIC_7101), (7102, CIC_7102),
      (103, CIC_X103), (105, CIC_X105), (106, CIC_X106), (5101, CIC_5101)]"

text \<open>The lookup loop of \<open>main\<close> (option \<open>-c\<close>): the first table row whose number is
  \<open>num\<close>, or whose index is \<open>num\<close> when \<open>num < CIC_LAST\<close>.\<close>

fun find_cic :: "int \<Rightarrow> nat \<Rightarrow> (int \<times> int) list \<Rightarrow> int option" where
  "find_cic num i [] = None"
| "find_cic num i ((n, c) # rows) =
     (if n = num \<or> (num < CIC_LAST \<and> num = int i) then Some c
      else find_cic num (Suc i) rows)"

text \<open>\<open>sixtyfourDrive\<close>: the libftdi handle is the link of the environment below.\<close>

record sixtyfourDrive =
  version :: int
  variant :: "u8 \<times> u8 \<times> u8"

section \<open>Byte order\<close>

text \<open>\<open>swap_endian\<close>, main.c lines 49-54.\<close>

definition swap_endian :: "u32 \<Rightarrow> u32" where
  "swap_endian val =
     (push_bit 24 val) OR
     ((push_bit 8 val) AND 0x00ff0000) OR
     ((drop_bit 8 val) AND 0x0000ff00) OR
     (drop_bit 24 val)"

text \<open>
  The code stores and loads 32-bit values through a \<open>uint32_t*\<close> that points into a
  byte buffer, so the bytes that result depend on the byte order of the host. The
  host is a parameter of the model.
\<close>

datatype endian = Little | Big

definition le_bytes :: "u32 \<Rightarrow> u8 list" where
  "le_bytes v = [ucast v, ucast (drop_bit 8 v), ucast (drop_bit 16 v), ucast (drop_bit 24 v)]"

definition be_bytes :: "u32 \<Rightarrow> u8 list" where
  "be_bytes v = [ucast (drop_bit 24 v), ucast (drop_bit 16 v), ucast (drop_bit 8 v), ucast v]"

definition be_word :: "u8 \<Rightarrow> u8 \<Rightarrow> u8 \<Rightarrow> u8 \<Rightarrow> u32" where
  "be_word b0 b1 b2 b3 =
     push_bit 24 (ucast b0) OR push_bit 16 (ucast b1) OR push_bit 8 (ucast b2) OR ucast b3"

text \<open>A \<open>uint32_t\<close> store, and a load from four bytes, in host order.\<close>

fun store_u32 :: "endian \<Rightarrow> u32 \<Rightarrow> u8 list" where
  "store_u32 Little v = le_bytes v"
| "store_u32 Big v = be_bytes v"

fun load_u32 :: "endian \<Rightarrow> u8 \<Rightarrow> u8 \<Rightarrow> u8 \<Rightarrow> u8 \<Rightarrow> u32" where
  "load_u32 Little b0 b1 b2 b3 = be_word b3 b2 b1 b0"
| "load_u32 Big b0 b1 b2 b3 = be_word b0 b1 b2 b3"

section \<open>The environment: link, host and process state\<close>

text \<open>
  Everything the code does not decide itself is a field of the environment: the
  result of the k-th \<open>ftdi_write_data\<close> call (given the length asked for), the result
  and the bytes delivered by the k-th \<open>ftdi_read_data\<close> call, the result of the two
  \<open>set_chunksize\<close> calls, whether \<open>malloc\<close> succeeds, the byte order of the host,
  the global \<open>verbosity\<close>, and what the uninitialised \<open>response\<close> array of
  \<open>device_get_version\<close> holds on entry.
\<close>

record env =
  host :: endian
  verbosity :: int
  wr_ret :: "nat \<Rightarrow> int \<Rightarrow> int"
  rd_ret :: "nat \<Rightarrow> int \<Rightarrow> int \<times> u8 list"
  chunksize_ret :: int
  malloc_ok :: bool
  stack :: "nat \<Rightarrow> u8"

text \<open>The calls made on the link, in order. \<open>WriteFrame\<close> and \<open>WriteData\<close> are both
  \<open>ftdi_write_data\<close>: of a command frame, whose bytes are known, and of the transfer
  buffer, of which only the length is modelled.\<close>

datatype event =
    WriteFrame "u8 list"
  | WriteData int
  | ReadData int
  | WriteSetChunksize int
  | ReadSetChunksize int
  | Usleep int
  | PurgeBuffers

text \<open>The messages written to \<open>stderr\<close>, with the values they print (the libftdi
  error string apart). Output to \<open>stdout\<close> (progress, verbose notes) is not modelled:
  it changes no state.\<close>

datatype msg =
    TooManyParams
  | SendCmdWriteFailed u8
  | SendCmdReadFailed u8
  | GetVersionFailed
  | IncorrectMagic u32
  | CommunicationFailure
  | UploadOutOfMemory
  | UploadSetChunkFailed
  | UploadWriteFailed int
  | DownloadOutOfMemory
  | DownloadSetChunkFailed
  | DownloadReadFailed int
  | CicUnsupported

text \<open>A \<open>FILE*\<close> on a regular file: a position and a length. \<open>ftell\<close> and \<open>fseek\<close>
  are taken to succeed, as they do on a regular file.\<close>

record stream =
  fpos :: int
  flen :: int

record world =
  io :: "event list"
  errs :: "msg list"
  nwrites :: nat
  nreads :: nat
  fstream :: stream

definition emit :: "event \<Rightarrow> world \<Rightarrow> world" where
  "emit e w = w\<lparr>io := io w @ [e]\<rparr>"

definition log_err :: "msg \<Rightarrow> world \<Rightarrow> world" where
  "log_err m w = w\<lparr>errs := errs w @ [m]\<rparr>"

text \<open>\<open>ftdi_write_data\<close> of a command frame and of \<open>n\<close> buffer bytes.\<close>

definition ftdi_write_frame :: "env \<Rightarrow> u8 list \<Rightarrow> world \<Rightarrow> int \<times> world" where
  "ftdi_write_frame E bytes w =
     (wr_ret E (nwrites w) (int (length bytes)),
      w\<lparr>io := io w @ [WriteFrame bytes], nwrites := Suc (nwrites w)\<rparr>)"

definition ftdi_write_data :: "env \<Rightarrow> int \<Rightarrow> world \<Rightarrow> int \<times> world" where
  "ftdi_write_data E n w =
     (wr_ret E (nwrites w) n,
      w\<lparr>io := io w @ [WriteData n], nwrites := Suc (nwrites w)\<rparr>)"

text \<open>\<open>ftdi_read_data\<close> into a buffer: a positive result \<open>r\<close> overwrites the first
  \<open>r\<close> bytes of the buffer with the bytes delivered, the rest keeps what it held.\<close>

definition overlay :: "u8 list \<Rightarrow> u8 list \<Rightarrow> u8 list" where
  "overlay new buf = take (length buf) (new @ drop (length new) buf)"

definition ftdi_read_data :: "env \<Rightarrow> u8 list \<Rightarrow> int \<Rightarrow> world \<Rightarrow> int \<times> u8 list \<times> world" where
  "ftdi_read_data E buf n w =
     (let (r, bytes) = rd_ret E (nreads w) n
      in (r, (if 0 < r then overlay (take (nat r) bytes) buf else buf),
          w\<lparr>io := io w @ [ReadData n], nreads := Suc (nreads w)\<rparr>))"

section \<open>The command codec: \<open>device_send_cmd\<close>, main.c lines 94-132\<close>

text \<open>
  The first \<open>4 + 4 * nParams\<close> bytes of \<open>tx_buf\<close>, which are the bytes handed to
  \<open>ftdi_write_data\<close>: the opcode, the characters C, M, D, and for each \<open>i < nParams\<close>
  the host-order store of \<open>swap_endian (params[i])\<close> at word \<open>i\<close> after the header.
  The caller passes at least \<open>nParams\<close> parameters.
\<close>

definition cmd_frame :: "endian \<Rightarrow> u8 \<Rightarrow> u8 \<Rightarrow> u32 list \<Rightarrow> u8 list" where
  "cmd_frame h cmd nParams params =
     [cmd, 0x43, 0x4D, 0x44] @
     concat (map (\<lambda>i. store_u32 h (swap_endian (params ! i))) [0..<unat nParams])"

definition device_send_cmd ::
  "env \<Rightarrow> u8 \<Rightarrow> u8 \<Rightarrow> u32 list \<Rightarrow> u8 list \<Rightarrow> int \<Rightarrow> world \<Rightarrow> int \<times> u8 list \<times> world" where
  "device_send_cmd E cmd nParams params resp respLen w =
     (if 32 div 4 \<le> unat nParams then (- 1, resp, log_err TooManyParams w)
      else
        let (err, w1) = ftdi_write_frame E (cmd_frame (host E) cmd nParams params) w
        in if err \<le> 0 then (err, resp, log_err (SendCmdWriteFailed cmd) w1)
           else if 0 < respLen then
             (let (err2, resp2, w2) = ftdi_read_data E resp respLen w1
              in (err2, resp2, (if err2 \<le> 0 then log_err (SendCmdReadFailed cmd) w2 else w2)))
           else (err, resp, w1))"


section \<open>The handshake: \<open>device_get_version\<close>, main.c lines 135-179\<close>

text \<open>The returned \<open>int\<close>: the three bytes, promoted to \<open>int\<close>, shifted and or-ed
  (line 178), read as a 32-bit two's complement value. For a first byte of 0x80 or
  more the shift leaves the range of \<open>int\<close>, which C does not define; the model takes
  the two's complement value that the usual compilers produce. For smaller first
  bytes the value is exact.\<close>

definition pack_variant :: "u8 \<Rightarrow> u8 \<Rightarrow> u8 \<Rightarrow> int" where
  "pack_variant r0 r1 r2 =
     sint (push_bit 24 (ucast r0) OR push_bit 16 (ucast r1) OR push_bit 8 (ucast r2) :: u32)"

text \<open>The \<open>while(1)\<close> loop of lines 146-170, on the counter \<open>tries\<close> and the
  \<open>response\<close> array; \<open>data[1]\<close> is the host-order load of bytes 4 to 7.\<close>

function get_version_loop ::
  "env \<Rightarrow> sixtyfourDrive \<Rightarrow> nat \<Rightarrow> u8 list \<Rightarrow> world \<Rightarrow> int \<times> sixtyfourDrive \<times> world" where
  "get_version_loop E dev tries response w =
     (let (err, response1, w1) = device_send_cmd E DEV_CMD_GETVER 0 [] response 64 w
      in if err \<le> 0 then (err, dev, log_err GetVersionFailed w1)
         else
           let magic = swap_endian (load_u32 (host E)
                         (response1 ! 4) (response1 ! 5) (response1 ! 6) (response1 ! 7))
           in if magic = DEV_MAGIC then
                (pack_variant (response1 ! 0) (response1 ! 1) (response1 ! 2),
                 dev\<lparr>variant := (response1 ! 0, response1 ! 1, response1 ! 2)\<rparr>, w1)
              else
                let w2 = (if 0 < verbosity E then log_err (IncorrectMagic magic) w1 else w1)
                in if 4 \<le> Suc tries then (- 1, dev, log_err CommunicationFailure w2)
                   else get_version_loop E dev (Suc tries) response1 w2)"
  by pat_completeness auto
termination
  by (relation "measure (\<lambda>(E, dev, tries, response, w). 4 - tries)") auto

definition device_get_version ::
  "env \<Rightarrow> sixtyfourDrive \<Rightarrow> world \<Rightarrow> int \<times> sixtyfourDrive \<times> world" where
  "device_get_version E dev w =
     (let response = map (stack E) [0..<64];
          (err, response1, w1) = device_send_cmd E DEV_CMD_GETVER 0 [] response 64 w
      in if err \<le> 0 then (err, dev, log_err GetVersionFailed w1)
         else get_version_loop E dev 0 response1 w1)"

section \<open>The transfer engine: \<open>device_upload\<close> and \<open>device_download\<close>\<close>

text \<open>Lines 199-207 and 277-285: the chunk size, a \<open>uint32_t\<close>, from the
  \<open>int64_t\<close> size. The comparison \<open>chunkSize > size\<close> is made at 64 bits, signed.\<close>

definition chunk_size :: "int \<Rightarrow> u32" where
  "chunk_size sz =
     (let units = (if 16 * 1024 * 1024 < sz then 32
                   else if 2 * 1024 * 1024 < sz then 16 else 4) :: u32;
          chunkSize = units * (128 * 1024)
      in if sz < uint chunkSize then word_of_int sz else chunkSize)"

text \<open>The second parameter of the load and dump commands (lines 230 and 303).\<close>

definition size_bank :: "u32 \<Rightarrow> int \<Rightarrow> u32" where
  "size_bank chunkSize bank = (chunkSize AND 0xffffff) OR push_bit 24 (word_of_int bank)"

text \<open>\<open>ftell\<close>, \<open>fseek\<close>, \<open>fread\<close> and \<open>fwrite\<close> on the stream of the world. Only the
  position and the length are modelled, not the bytes.\<close>

definition ftell :: "world \<Rightarrow> int" where
  "ftell w = fpos (fstream w)"

definition fseek_end :: "world \<Rightarrow> world" where
  "fseek_end w = w\<lparr>fstream := (fstream w)\<lparr>fpos := flen (fstream w)\<rparr>\<rparr>"

definition fseek_set :: "int \<Rightarrow> world \<Rightarrow> world" where
  "fseek_set p w = w\<lparr>fstream := (fstream w)\<lparr>fpos := p\<rparr>\<rparr>"

definition fread :: "int \<Rightarrow> world \<Rightarrow> world" where
  "fread n w =
     (let f = fstream w
      in if flen f \<le> fpos f then w
         else w\<lparr>fstream := f\<lparr>fpos := min (fpos f + n) (flen f)\<rparr>\<rparr>)"

definition fwrite :: "int \<Rightarrow> world \<Rightarrow> world" where
  "fwrite n w =
     (let f = fstream w
      in w\<lparr>fstream := f\<lparr>fpos := fpos f + n, flen := max (flen f) (fpos f + n)\<rparr>\<rparr>)"

text \<open>\<open>ftdi_read_data\<close> into the transfer buffer: only the result is modelled.\<close>

definition ftdi_read_buffer :: "env \<Rightarrow> int \<Rightarrow> world \<Rightarrow> int \<times> world" where
  "ftdi_read_buffer E n w =
     (fst (rd_ret E (nreads w) n),
      w\<lparr>io := io w @ [ReadData n], nreads := Suc (nreads w)\<rparr>)"

text \<open>The retry loops of lines 233-241 and 306-314, on \<open>tries\<close> and the last result.\<close>

function upload_attempts :: "env \<Rightarrow> int \<Rightarrow> nat \<Rightarrow> int \<Rightarrow> world \<Rightarrow> int \<times> world" where
  "upload_attempts E chunk tries nSent w =
     (if tries < 5 then
        let (n, w1) = ftdi_write_data E chunk w
        in if 0 < n then (n, w1)
           else upload_attempts E chunk (Suc tries) n (emit PurgeBuffers (emit (Usleep 10000) w1))
      else (nSent, w))"
  by pat_completeness auto
termination
  by (relation "measure (\<lambda>(E, chunk, tries, nSent, w). 5 - tries)") auto

function download_attempts :: "env \<Rightarrow> int \<Rightarrow> nat \<Rightarrow> int \<Rightarrow> world \<Rightarrow> int \<times> world" where
  "download_attempts E chunk tries nRecv w =
     (if tries < 5 then
        let (n, w1) = ftdi_read_buffer E chunk w
        in if 0 < n then (n, w1)
           else download_attempts E chunk (Suc tries) n (emit PurgeBuffers (emit (Usleep 10000) w1))
      else (nRecv, w))"
  by pat_completeness auto
termination
  by (relation "measure (\<lambda>(E, chunk, tries, nRecv, w). 5 - tries)") auto

text \<open>
  The per-chunk loops of lines 227-256 and 302-330. The result is the returned
  \<open>int\<close>, the final values of the locals \<open>offset\<close> and \<open>readPos\<close>, and the world.
\<close>

function upload_loop ::
  "env \<Rightarrow> u32 \<Rightarrow> int \<Rightarrow> int \<Rightarrow> u32 \<Rightarrow> int \<Rightarrow> world \<Rightarrow> int \<times> u32 \<times> int \<times> world" where
  "upload_loop E chunkSize bank sz offset readPos w =
     (if readPos < sz then
        let w0 = fread (uint chunkSize) w;
            (r, resp, w1) = device_send_cmd E DEV_CMD_LOADRAM 2
                              [offset, size_bank chunkSize bank] [] 0 w0;
            (nSent, w2) = upload_attempts E (uint chunkSize) 0 (- 1) w1
        in if nSent \<le> 0 then (nSent, offset, readPos, log_err (UploadWriteFailed readPos) w2)
           else upload_loop E chunkSize bank sz (offset + word_of_int nSent) (readPos + nSent) w2
      else (0, offset, readPos, w))"
  by pat_completeness auto
termination
  by (relation "measure (\<lambda>(E, chunkSize, bank, sz, offset, readPos, w). nat (sz - readPos))")
     auto

function download_loop ::
  "env \<Rightarrow> u32 \<Rightarrow> int \<Rightarrow> int \<Rightarrow> u32 \<Rightarrow> int \<Rightarrow> world \<Rightarrow> int \<times> u32 \<times> int \<times> world" where
  "download_loop E chunkSize bank sz offset readPos w =
     (if readPos < sz then
        let (r, resp, w1) = device_send_cmd E DEV_CMD_DUMPRAM 2
                              [offset, size_bank chunkSize bank] [] 0 w;
            (nRecv, w2) = download_attempts E (uint chunkSize) 0 (- 1) w1
        in if nRecv \<le> 0 then (nRecv, offset, readPos, log_err (DownloadReadFailed readPos) w2)
           else download_loop E chunkSize bank sz (offset + word_of_int nRecv) (readPos + nRecv)
                  (fwrite nRecv w2)
      else (0, offset, readPos, w))"
  by pat_completeness auto
termination
  by (relation "measure (\<lambda>(E, chunkSize, bank, sz, offset, readPos, w). nat (sz - readPos))")
     auto

text \<open>Lines 192-197: the size of an upload when the argument is negative.\<close>

definition upload_size :: "int \<Rightarrow> world \<Rightarrow> int \<times> world" where
  "upload_size sz w =
     (if sz < 0 then
        let cur = ftell w;
            w1 = fseek_end w;
            sz1 = ftell w1 - cur;
            w2 = fseek_set cur w1
        in (sz1, w2)
      else (sz, w))"

text \<open>Lines 272-275: the size of a download when the argument is negative.\<close>

definition download_size :: "int \<Rightarrow> int" where
  "download_size sz = (if sz < 0 then 256 * 1024 * 1024 else sz)"

definition device_upload ::
  "env \<Rightarrow> int \<Rightarrow> u32 \<Rightarrow> int \<Rightarrow> world \<Rightarrow> int \<times> u32 \<times> int \<times> world" where
  "device_upload E sz offset bank w =
     (let (sz1, w0) = upload_size sz w;
          chunkSize = chunk_size sz1
      in if \<not> malloc_ok E then (- 1, offset, 0, log_err UploadOutOfMemory w0)
         else
           let w1 = emit (WriteSetChunksize (uint chunkSize)) w0;
               err = chunksize_ret E
           in if err \<noteq> 0 then (err, offset, 0, log_err UploadSetChunkFailed w1)
              else upload_loop E chunkSize bank sz1 offset 0 w1)"

definition device_download ::
  "env \<Rightarrow> int \<Rightarrow> u32 \<Rightarrow> int \<Rightarrow> world \<Rightarrow> int \<times> u32 \<times> int \<times> world" where
  "device_download E sz offset bank w =
     (let sz1 = download_size sz;
          chunkSize = chunk_size sz1
      in if \<not> malloc_ok E then (- 1, offset, 0, log_err DownloadOutOfMemory w)
         else
           let w1 = emit (ReadSetChunksize (uint chunkSize)) w;
               err = chunksize_ret E
           in if err \<noteq> 0 then (err, offset, 0, log_err DownloadSetChunkFailed w1)
              else download_loop E chunkSize bank sz1 offset 0 w1)"

section \<open>The CIC selector: \<open>device_set_cic\<close>, main.c lines 337-347\<close>

definition device_set_cic :: "env \<Rightarrow> sixtyfourDrive \<Rightarrow> int \<Rightarrow> world \<Rightarrow> int \<times> world" where
  "device_set_cic E dev cic w =
     (if fst (variant dev) = 0x41 then (- 1, log_err CicUnsupported w)
      else
        let param = push_bit 31 1 OR word_of_int cic :: u32;
            (r, resp, w1) = device_send_cmd E DEV_CMD_SETCIC 1 [param] [] 0 w
        in (r, w1))"

section \<open>Observations on results and traces\<close>

text \<open>The components of the result of a transfer.\<close>

definition ret_of :: "int \<times> u32 \<times> int \<times> world \<Rightarrow> int" where
  "ret_of x = fst x"

definition offset_of :: "int \<times> u32 \<times> int \<times> world \<Rightarrow> u32" where
  "offset_of x = fst (snd x)"

definition moved_of :: "int \<times> u32 \<times> int \<times> world \<Rightarrow> int" where
  "moved_of x = fst (snd (snd x))"

definition world_of :: "int \<times> u32 \<times> int \<times> world \<Rightarrow> world" where
  "world_of x = snd (snd (snd x))"

definition io_of :: "int \<times> u32 \<times> int \<times> world \<Rightarrow> event list" where
  "io_of x = io (snd (snd (snd x)))"

text \<open>The lengths asked for in the bulk calls of a trace, and the number of command
  frames in it. Each pass through a per-chunk loop writes exactly one command frame,
  so in a transfer the number of frames is the number of iterations.\<close>

fun bulk_lengths :: "event list \<Rightarrow> int list" where
  "bulk_lengths [] = []"
| "bulk_lengths (WriteData n # es) = n # bulk_lengths es"
| "bulk_lengths (ReadData n # es) = n # bulk_lengths es"
| "bulk_lengths (e # es) = bulk_lengths es"

fun count_frames :: "event list \<Rightarrow> nat" where
  "count_frames [] = 0"
| "count_frames (WriteFrame bs # es) = Suc (count_frames es)"
| "count_frames (e # es) = count_frames es"

text \<open>The trace of a retry loop: \<open>k\<close> failed attempts, each followed by the delay of
  10000 microseconds and the purge, then one more attempt when \<open>b\<close> holds.\<close>

definition retry_events :: "event \<Rightarrow> nat \<Rightarrow> bool \<Rightarrow> event list" where
  "retry_events call k b =
     concat (replicate k [call, Usleep 10000, PurgeBuffers]) @ (if b then [call] else [])"

text \<open>The world after \<open>k\<close> failed bulk attempts and, when \<open>b\<close> holds, one more that
  succeeded; and the world after the load or dump command of a chunk.\<close>

definition attempted_writes :: "int \<Rightarrow> nat \<Rightarrow> bool \<Rightarrow> world \<Rightarrow> world" where
  "attempted_writes c k b w =
     w\<lparr>nwrites := nwrites w + k + (if b then 1 else 0),
        io := io w @ retry_events (WriteData c) k b\<rparr>"

definition attempted_reads :: "int \<Rightarrow> nat \<Rightarrow> bool \<Rightarrow> world \<Rightarrow> world" where
  "attempted_reads c k b w =
     w\<lparr>nreads := nreads w + k + (if b then 1 else 0),
        io := io w @ retry_events (ReadData c) k b\<rparr>"

definition commanded :: "env \<Rightarrow> u8 \<Rightarrow> u32 \<Rightarrow> u32 \<Rightarrow> int \<Rightarrow> world \<Rightarrow> world" where
  "commanded E cmd off c bank w =
     snd (snd (device_send_cmd E cmd 2 [off, size_bank c bank] [] 0 w))"

text \<open>The second 32-bit word of a response, read big-endian.\<close>

definition magic_of :: "u8 list \<Rightarrow> u32" where
  "magic_of r = be_word (r ! 4) (r ! 5) (r ! 6) (r ! 7)"

text \<open>Seen from a world \<open>w\<close>: the bytes the k-th coming read of 64 bytes delivers, and
  that the k-th coming exchange works on the link (the 4-byte frame is written, the
  read returns 64 bytes).\<close>

definition response :: "env \<Rightarrow> world \<Rightarrow> nat \<Rightarrow> u8 list" where
  "response E w k = snd (rd_ret E (nreads w + k) 64)"

definition link_up :: "env \<Rightarrow> world \<Rightarrow> nat \<Rightarrow> bool" where
  "link_up E w k =
     (0 < wr_ret E (nwrites w + k) 4 \<and> fst (rd_ret E (nreads w + k) 64) = 64
      \<and> length (response E w k) = 64)"

text \<open>The world after one exchange of the handshake on a working link, after the
  note of a mismatch, and after the first exchange and \<open>j\<close> mismatches.\<close>

definition exchanged :: "world \<Rightarrow> world" where
  "exchanged w = w\<lparr>io := io w @ [WriteFrame [0x80, 0x43, 0x4D, 0x44], ReadData 64],
                    nwrites := Suc (nwrites w), nreads := Suc (nreads w)\<rparr>"

definition noted :: "env \<Rightarrow> u8 list \<Rightarrow> world \<Rightarrow> world" where
  "noted E r w = (if 0 < verbosity E then log_err (IncorrectMagic (magic_of r)) w else w)"

fun after_mismatches :: "env \<Rightarrow> world \<Rightarrow> nat \<Rightarrow> world" where
  "after_mismatches E w 0 = exchanged w"
| "after_mismatches E w (Suc j) =
     noted E (response E w (Suc j)) (exchanged (after_mismatches E w j))"

section \<open>Concrete environments and worlds\<close>

text \<open>A link for bulk transfers that accepts and delivers every byte asked for, on a
  host of the given byte order. The bytes of a bulk read are not modelled, so none
  are listed.\<close>

definition full_link :: "endian \<Rightarrow> env" where
  "full_link h =
     \<lparr>host = h, verbosity = 0, wr_ret = (\<lambda>k n. n),
      rd_ret = (\<lambda>k n. (n, [])), chunksize_ret = 0, malloc_ok = True,
      stack = (\<lambda>i. 0)\<rparr>"

text \<open>A fresh world whose stream has the given position and length.\<close>

definition fresh_world :: "int \<Rightarrow> int \<Rightarrow> world" where
  "fresh_world p n = \<lparr>io = [], errs = [], nwrites = 0, nreads = 0,
                       fstream = \<lparr>fpos = p, flen = n\<rparr>\<rparr>"

text \<open>A link on a little-endian host on which every write succeeds and the k-th read
  delivers \<open>rs k\<close>; a 64-byte response with the given variant bytes and the magic
  word; a 64-byte response of zeros.\<close>

definition reply_env :: "int \<Rightarrow> (nat \<Rightarrow> u8 list) \<Rightarrow> env" where
  "reply_env v rs =
     \<lparr>host = Little, verbosity = v, wr_ret = (\<lambda>k n. n),
      rd_ret = (\<lambda>k n. (n, rs k)), chunksize_ret = 0, malloc_ok = True,
      stack = (\<lambda>i. 0)\<rparr>"

definition magic_reply :: "u8 \<Rightarrow> u8 \<Rightarrow> u8 \<Rightarrow> u8 list" where
  "magic_reply v0 v1 v2 = [v0, v1, v2, 0, 0x55, 0x44, 0x45, 0x56] @ replicate 56 0"

definition blank_reply :: "u8 list" where
  "blank_reply = replicate 64 0"

text \<open>A link that takes command frames (12 bytes) and the first \<open>n\<close> calls, and fails
  every other bulk write and every bulk read after the first \<open>n\<close>.\<close>

definition dying_link :: "nat \<Rightarrow> env" where
  "dying_link n =
     \<lparr>host = Little, verbosity = 0,
      wr_ret = (\<lambda>k len. if k < n \<or> len = 12 then len else - 1),
      rd_ret = (\<lambda>k len. if k < n then (len, []) else (- 1, [])),
      chunksize_ret = 0, malloc_ok = True, stack = (\<lambda>i. 0)\<rparr>"

text \<open>A link on which the bulk write number 3 and the bulk read number 2 succeed and
  all others fail, and a link whose bulk calls all return 0; both take command
  frames.\<close>

definition flaky_link :: env where
  "flaky_link =
     \<lparr>host = Little, verbosity = 0,
      wr_ret = (\<lambda>k len. if len = 12 \<or> k = 3 then len else - 1),
      rd_ret = (\<lambda>k len. if k = 2 then (len, []) else (- 1, [])),
      chunksize_ret = 0, malloc_ok = True, stack = (\<lambda>i. 0)\<rparr>"

definition stalled_link :: env where
  "stalled_link =
     \<lparr>host = Little, verbosity = 0,
      wr_ret = (\<lambda>k len. if len = 12 then len else 0),
      rd_ret = (\<lambda>k len. (0, [])),
      chunksize_ret = 0, malloc_ok = True, stack = (\<lambda>i. 0)\<rparr>"

declare upload_loop.simps [simp del] download_loop.simps [simp del]
  upload_attempts.simps [simp del] download_attempts.simps [simp del]
  get_version_loop.simps [simp del]

section \<open>Byte order of \<open>swap_endian\<close>\<close>

lemma mask_const_16: "(0x00ff0000 :: u32) = push_bit 16 (mask 8)"
  by (simp add: mask_eq_exp_minus_1 push_bit_eq_mult)

lemma mask_const_8: "(0x0000ff00 :: u32) = push_bit 8 (mask 8)"
  by (simp add: mask_eq_exp_minus_1 push_bit_eq_mult)

lemma swap_endian_masks:
  "swap_endian val =
     (push_bit 24 val) OR
     ((push_bit 8 val) AND push_bit 16 (mask 8)) OR
     ((drop_bit 8 val) AND push_bit 8 (mask 8)) OR
     (drop_bit 24 val)"
  unfolding swap_endian_def mask_const_16 mask_const_8 ..

lemma swap_byte0: "(ucast (swap_endian v) :: u8) = ucast (drop_bit 24 v)"
  unfolding swap_endian_masks
  by (rule bit_word_eqI) (auto simp add: bit_simps)

lemma swap_byte1: "(ucast (drop_bit 8 (swap_endian v)) :: u8) = ucast (drop_bit 16 v)"
  unfolding swap_endian_masks
  by (rule bit_word_eqI) (auto simp add: bit_simps)

lemma swap_byte2: "(ucast (drop_bit 16 (swap_endian v)) :: u8) = ucast (drop_bit 8 v)"
  unfolding swap_endian_masks
  by (rule bit_word_eqI) (auto simp add: bit_simps)

lemma swap_byte3: "(ucast (drop_bit 24 (swap_endian v)) :: u8) = ucast v"
  unfolding swap_endian_masks
  by (rule bit_word_eqI) (auto simp add: bit_simps)

lemma le_bytes_swap: "le_bytes (swap_endian v) = be_bytes v"
  by (simp add: le_bytes_def be_bytes_def swap_byte0 swap_byte1 swap_byte2 swap_byte3)

lemma be_bytes_swap: "be_bytes (swap_endian v) = le_bytes v"
  by (simp add: le_bytes_def be_bytes_def swap_byte0 swap_byte1 swap_byte2 swap_byte3)

lemma be_word_b0: "(ucast (drop_bit 24 (be_word b0 b1 b2 b3)) :: u8) = b0"
  unfolding be_word_def
  by (rule bit_word_eqI) (auto simp add: bit_simps dest: bit_imp_le_length)

lemma be_word_b1: "(ucast (drop_bit 16 (be_word b0 b1 b2 b3)) :: u8) = b1"
  unfolding be_word_def
  by (rule bit_word_eqI) (auto simp add: bit_simps dest: bit_imp_le_length)

lemma be_word_b2: "(ucast (drop_bit 8 (be_word b0 b1 b2 b3)) :: u8) = b2"
  unfolding be_word_def
  by (rule bit_word_eqI) (auto simp add: bit_simps dest: bit_imp_le_length)

lemma be_word_b3: "(ucast (be_word b0 b1 b2 b3) :: u8) = b3"
  unfolding be_word_def
  by (rule bit_word_eqI) (auto simp add: bit_simps dest: bit_imp_le_length)

lemma be_word_bytes:
  "be_word (ucast (drop_bit 24 v)) (ucast (drop_bit 16 v)) (ucast (drop_bit 8 v)) (ucast v)
     = (v :: u32)"
  unfolding be_word_def
proof (rule bit_word_eqI)
  fix n assume n: "n < LENGTH(32)"
  consider "n < 8" | "8 \<le> n" "n < 16" | "16 \<le> n" "n < 24" | "24 \<le> n" "n < 32"
    using n by fastforce
  then show "bit (push_bit 24 (ucast (ucast (drop_bit 24 v) :: u8)) OR
                  push_bit 16 (ucast (ucast (drop_bit 16 v) :: u8)) OR
                  push_bit 8 (ucast (ucast (drop_bit 8 v) :: u8)) OR
                  ucast (ucast v :: u8) :: u32) n = bit v n"
    by cases (auto simp add: bit_simps)
qed

text \<open>On a little-endian host the word the handshake compares with the magic is the
  big-endian reading of the four bytes.\<close>

lemma swap_load_Little: "swap_endian (load_u32 Little b0 b1 b2 b3) = be_word b0 b1 b2 b3"
proof -
  let ?v = "be_word b3 b2 b1 b0"
  have "be_word (ucast (drop_bit 24 (swap_endian ?v))) (ucast (drop_bit 16 (swap_endian ?v)))
          (ucast (drop_bit 8 (swap_endian ?v))) (ucast (swap_endian ?v)) = swap_endian ?v"
    by (rule be_word_bytes)
  then show ?thesis
    by (simp add: swap_byte0 swap_byte1 swap_byte2 swap_byte3
        be_word_b0 be_word_b1 be_word_b2 be_word_b3)
qed

section \<open>The command frame\<close>

lemma cmd_frame_Little:
  assumes "length params = unat nParams"
  shows "cmd_frame Little cmd nParams params
           = [cmd, 0x43, 0x4D, 0x44] @ concat (map be_bytes params)"
proof -
  have "map (\<lambda>i. store_u32 Little (swap_endian (params ! i))) [0..<unat nParams]
        = map be_bytes (map ((!) params) [0..<length params])"
    using assms by (simp add: le_bytes_swap)
  also have "\<dots> = map be_bytes params"
    by (simp add: map_nth)
  finally show ?thesis
    by (simp add: cmd_frame_def)
qed

lemma length_concat_be_bytes: "length (concat (map be_bytes ps)) = 4 * length ps"
  by (induction ps) (simp_all add: be_bytes_def)

lemma length_cmd_frame: "length (cmd_frame h cmd nParams params) = 4 + 4 * unat nParams"
proof -
  have "length (concat (map (\<lambda>i. store_u32 h (swap_endian (params ! i))) xs)) = 4 * length xs"
    for xs
    by (induction xs) (cases h; simp add: le_bytes_def be_bytes_def)+
  then show ?thesis by (simp add: cmd_frame_def)
qed

lemma send_cmd_io:
  assumes "unat nParams \<le> 7"
  shows "\<exists>rest. io (snd (snd (device_send_cmd E cmd nParams params resp respLen w)))
           = io w @ WriteFrame (cmd_frame (host E) cmd nParams params) # rest"
  using assms
  by (simp add: device_send_cmd_def ftdi_write_frame_def ftdi_read_data_def log_err_def
      split: prod.splits)




text \<open>
  C7. With at most 7 parameters \<open>device_send_cmd\<close> builds the frame and hands it to
  \<open>ftdi_write_data\<close>, the first call it makes on the link. With 8 or more it returns
  -1 after the "too many params" message and makes no call on the link: the world
  differs by that message only, so no write and no read have happened.
\<close>

theorem send_cmd_param_limit:
  "(unat nParams \<le> 7 \<longrightarrow>
      (\<exists>rest. io (snd (snd (device_send_cmd E cmd nParams params resp respLen w)))
         = io w @ WriteFrame (cmd_frame (host E) cmd nParams params) # rest))
   \<and> (8 \<le> unat nParams \<longrightarrow>
        device_send_cmd E cmd nParams params resp respLen w
          = (- 1, resp, w\<lparr>errs := errs w @ [TooManyParams]\<rparr>))"
  using send_cmd_io [of nParams E cmd params resp respLen w]
  by (simp add: device_send_cmd_def log_err_def)

text \<open>C7 at the load command with its two parameters, and at eight parameters.\<close>

theorem send_cmd_param_limit_witness:
  "unat (2 :: u8) \<le> 7 \<and> 8 \<le> unat (8 :: u8)
   \<and> io (snd (snd (device_send_cmd (full_link Little) 0x20 2 [0, 0x01080000] [] 0
                       (fresh_world 0 0))))
       = [WriteFrame [0x20, 0x43, 0x4D, 0x44, 0, 0, 0, 0, 1, 8, 0, 0]]
   \<and> device_send_cmd (full_link Little) 0x20 8 [0, 1, 2, 3, 4, 5, 6, 7] [] 0 (fresh_world 0 0)
       = (- 1, [], (fresh_world 0 0)\<lparr>errs := [TooManyParams]\<rparr>)"
proof -
  have c: "unat (2 :: u8) \<le> 7 \<and> 8 \<le> unat (8 :: u8)
   \<and> io (snd (snd (device_send_cmd (full_link Little) 0x20 2 [0, 0x01080000] [] 0
                       (fresh_world 0 0))))
       = [WriteFrame [0x20, 0x43, 0x4D, 0x44, 0, 0, 0, 0, 1, 8, 0, 0]]
   \<and> device_send_cmd (full_link Little) 0x20 8 [0, 1, 2, 3, 4, 5, 6, 7] [] 0 (fresh_world 0 0)
       = (- 1, [], (fresh_world 0 0)\<lparr>errs := [TooManyParams]\<rparr>)"
    by code_simp
  show ?thesis
    using send_cmd_param_limit
            [of 2 "full_link Little" "0x20" "[0, 0x01080000]" "[]" 0 "fresh_world 0 0"]
          send_cmd_param_limit
            [of 8 "full_link Little" "0x20" "[0, 1, 2, 3, 4, 5, 6, 7]" "[]" 0 "fresh_world 0 0"]
    by (simp only: c)
qed

section \<open>The CIC selector\<close>

text \<open>
  C6. When the first variant character is \<open>'A'\<close> (0x41), \<open>device_set_cic\<close> returns -1
  after the "does not support" message and makes no call on the link. Otherwise it
  makes exactly one call on the link, the write of the 8-byte frame of opcode 0x72
  with the single parameter \<open>(1 << 31) | cic\<close> (big-endian on a little-endian host),
  and no read. The table maps 6102 to the id 1, for which the parameter is
  0x80000001.
\<close>

theorem set_cic_gate:
  "(fst (variant dev) = 0x41 \<longrightarrow>
      device_set_cic E dev cic w = (- 1, w\<lparr>errs := errs w @ [CicUnsupported]\<rparr>))
   \<and> (fst (variant dev) \<noteq> 0x41 \<longrightarrow>
        io (snd (device_set_cic E dev cic w))
          = io w @ [WriteFrame (cmd_frame (host E) DEV_CMD_SETCIC 1
                                  [push_bit 31 1 OR word_of_int cic])]
        \<and> length (cmd_frame (host E) DEV_CMD_SETCIC 1 [push_bit 31 1 OR word_of_int cic]) = 8
        \<and> nreads (snd (device_set_cic E dev cic w)) = nreads w)
   \<and> cmd_frame Little DEV_CMD_SETCIC 1 [push_bit 31 1 OR word_of_int cic]
       = [0x72, 0x43, 0x4D, 0x44] @ be_bytes (push_bit 31 1 OR word_of_int cic)
   \<and> find_cic 6102 0 cic_types = Some CIC_6102
   \<and> (push_bit 31 1 OR word_of_int CIC_6102 :: u32) = 0x80000001"
  by (simp add: device_set_cic_def device_send_cmd_def ftdi_write_frame_def log_err_def
      length_cmd_frame cmd_frame_Little DEV_CMD_SETCIC_def
      cic_types_def CIC_6101_def CIC_6102_def Let_def split: prod.splits)

text \<open>C6 on a revision A device and on a revision B device, with CIC 6102.\<close>

theorem set_cic_gate_witness:
  "device_set_cic (full_link Little) \<lparr>version = 1, variant = (0x41, 0x20, 0x20)\<rparr> CIC_6102
     (fresh_world 0 0)
     = (- 1, (fresh_world 0 0)\<lparr>errs := [CicUnsupported]\<rparr>)
   \<and> io (snd (device_set_cic (full_link Little) \<lparr>version = 2, variant = (0x42, 0x20, 0x20)\<rparr>
                 CIC_6102 (fresh_world 0 0)))
       = [WriteFrame [0x72, 0x43, 0x4D, 0x44, 0x80, 0x00, 0x00, 0x01]]"
proof -
  have c: "device_set_cic (full_link Little) \<lparr>version = 1, variant = (0x41, 0x20, 0x20)\<rparr> CIC_6102
     (fresh_world 0 0)
     = (- 1, (fresh_world 0 0)\<lparr>errs := [CicUnsupported]\<rparr>)
   \<and> io (snd (device_set_cic (full_link Little) \<lparr>version = 2, variant = (0x42, 0x20, 0x20)\<rparr>
                 CIC_6102 (fresh_world 0 0)))
       = [WriteFrame [0x72, 0x43, 0x4D, 0x44, 0x80, 0x00, 0x00, 0x01]]"
    by code_simp
  show ?thesis
    using set_cic_gate [of "\<lparr>version = 1, variant = (0x41, 0x20, 0x20)\<rparr>" "full_link Little"
                           CIC_6102 "fresh_world 0 0"]
          set_cic_gate [of "\<lparr>version = 2, variant = (0x42, 0x20, 0x20)\<rparr>" "full_link Little"
                           CIC_6102 "fresh_world 0 0"]
    by (simp only: c)
qed

section \<open>The size of a transfer\<close>



section \<open>Traces of the transfer loops\<close>

lemma chunk_size_uint:
  assumes "0 \<le> S"
  shows "uint (chunk_size S) =
           (if 16777216 < S then 4194304 else if 2097152 < S then 2097152
            else if S < 524288 then S else 524288)"
proof (cases "S < 524288")
  case True
  then have "uint (word_of_int S :: u32) = S"
    using assms by (simp add: uint_word_of_int take_bit_int_eq_self)
  with True show ?thesis by (simp add: chunk_size_def)
next
  case False
  then show ?thesis by (simp add: chunk_size_def)
qed

lemma bulk_lengths_append: "bulk_lengths (xs @ ys) = bulk_lengths xs @ bulk_lengths ys"
  by (induction xs rule: bulk_lengths.induct) simp_all

lemma count_frames_append: "count_frames (xs @ ys) = count_frames xs + count_frames ys"
  by (induction xs rule: count_frames.induct) simp_all

lemma io_log_err [simp]: "io (log_err m w) = io w"
  by (simp add: log_err_def)

lemma io_fread [simp]: "io (fread n w) = io w"
  by (simp add: fread_def Let_def)

lemma io_fwrite [simp]: "io (fwrite n w) = io w"
  by (simp add: fwrite_def Let_def)

lemma io_emit [simp]: "io (emit e w) = io w @ [e]"
  by (simp add: emit_def)

text \<open>A command without a response adds one frame write and nothing else.\<close>

lemma send_cmd_noresp_io:
  "unat nParams \<le> 7 \<Longrightarrow>
   io (snd (snd (device_send_cmd E cmd nParams params resp 0 w)))
     = io w @ [WriteFrame (cmd_frame (host E) cmd nParams params)]"
  by (simp add: device_send_cmd_def ftdi_write_frame_def split: prod.splits)


lemma retry_events_Suc:
  "[call, Usleep 10000, PurgeBuffers] @ retry_events call k b = retry_events call (Suc k) b"
  by (simp add: retry_events_def)

lemma bulk_lengths_retry_write:
  "set (bulk_lengths (retry_events (WriteData c) k b)) \<subseteq> {c}"
  by (induction k) (auto simp: retry_events_def bulk_lengths_append)

lemma bulk_lengths_retry_read:
  "set (bulk_lengths (retry_events (ReadData c) k b)) \<subseteq> {c}"
  by (induction k) (auto simp: retry_events_def bulk_lengths_append)

lemma count_frames_retry_write: "count_frames (retry_events (WriteData c) k b) = 0"
  by (induction k) (auto simp: retry_events_def count_frames_append)

lemma count_frames_retry_read: "count_frames (retry_events (ReadData c) k b) = 0"
  by (induction k) (auto simp: retry_events_def count_frames_append)

text \<open>The trace of a retry loop started at \<open>tries = t\<close>: at most \<open>5 - t\<close> attempts,
  each failed one followed by the delay and the purge.\<close>

lemma upload_attempts_shape:
  "\<exists>k b. k + (if b then 1 else 0) \<le> 5 - t \<and>
     io (snd (upload_attempts E c t n w)) = io w @ retry_events (WriteData c) k b"
proof (induction E c t n w rule: upload_attempts.induct)
  case (1 E chunk tries nSent w)
  show ?case
  proof (cases "tries < 5")
    case False
    then have "io (snd (upload_attempts E chunk tries nSent w))
                 = io w @ retry_events (WriteData chunk) 0 False"
      by (simp add: upload_attempts.simps retry_events_def)
    then show ?thesis by (intro exI [of _ 0] exI [of _ False]) simp
  next
    case True
    obtain m w1 where f: "ftdi_write_data E chunk w = (m, w1)" by fastforce
    then have w1: "io w1 = io w @ [WriteData chunk]"
      by (auto simp: ftdi_write_data_def)
    show ?thesis
    proof (cases "0 < m")
      case True
      with \<open>tries < 5\<close> f w1
      have "io (snd (upload_attempts E chunk tries nSent w))
              = io w @ retry_events (WriteData chunk) 0 True"
        by (simp add: upload_attempts.simps [of E chunk tries] retry_events_def)
      with \<open>tries < 5\<close> show ?thesis by (intro exI [of _ 0] exI [of _ True]) simp
    next
      case False
      from "1.IH" [OF \<open>tries < 5\<close> f [symmetric] refl False]
      obtain k b where kb: "k + (if b then 1 else 0) \<le> 5 - Suc tries"
        and io': "io (snd (upload_attempts E chunk (Suc tries) m
                        (emit PurgeBuffers (emit (Usleep 10000) w1))))
                  = io (emit PurgeBuffers (emit (Usleep 10000) w1))
                    @ retry_events (WriteData chunk) k b"
        by blast
      from False \<open>tries < 5\<close> f io' w1
      have "io (snd (upload_attempts E chunk tries nSent w))
              = io w @ retry_events (WriteData chunk) (Suc k) b"
        by (simp add: upload_attempts.simps [of E chunk tries]
            retry_events_Suc [symmetric])
      with kb \<open>tries < 5\<close> show ?thesis
        by (intro exI [of _ "Suc k"] exI [of _ b]) (simp split: if_splits)
    qed
  qed
qed


lemma download_attempts_shape:
  "\<exists>k b. k + (if b then 1 else 0) \<le> 5 - t \<and>
     io (snd (download_attempts E c t n w)) = io w @ retry_events (ReadData c) k b"
proof (induction E c t n w rule: download_attempts.induct)
  case (1 E chunk tries nRecv w)
  show ?case
  proof (cases "tries < 5")
    case False
    then have "io (snd (download_attempts E chunk tries nRecv w))
                 = io w @ retry_events (ReadData chunk) 0 False"
      by (simp add: download_attempts.simps retry_events_def)
    then show ?thesis by (intro exI [of _ 0] exI [of _ False]) simp
  next
    case True
    obtain m w1 where f: "ftdi_read_buffer E chunk w = (m, w1)" by fastforce
    then have w1: "io w1 = io w @ [ReadData chunk]"
      by (auto simp: ftdi_read_buffer_def)
    show ?thesis
    proof (cases "0 < m")
      case True
      with \<open>tries < 5\<close> f w1
      have "io (snd (download_attempts E chunk tries nRecv w))
              = io w @ retry_events (ReadData chunk) 0 True"
        by (simp add: download_attempts.simps [of E chunk tries] retry_events_def)
      with \<open>tries < 5\<close> show ?thesis by (intro exI [of _ 0] exI [of _ True]) simp
    next
      case False
      from "1.IH" [OF \<open>tries < 5\<close> f [symmetric] refl False]
      obtain k b where kb: "k + (if b then 1 else 0) \<le> 5 - Suc tries"
        and io': "io (snd (download_attempts E chunk (Suc tries) m
                        (emit PurgeBuffers (emit (Usleep 10000) w1))))
                  = io (emit PurgeBuffers (emit (Usleep 10000) w1))
                    @ retry_events (ReadData chunk) k b"
        by blast
      from False \<open>tries < 5\<close> f io' w1
      have "io (snd (download_attempts E chunk tries nRecv w))
              = io w @ retry_events (ReadData chunk) (Suc k) b"
        by (simp add: download_attempts.simps [of E chunk tries]
            retry_events_Suc [symmetric])
      with kb \<open>tries < 5\<close> show ?thesis
        by (intro exI [of _ "Suc k"] exI [of _ b]) (simp split: if_splits)
    qed
  qed
qed


lemma send_cmd_noresp_world:
  assumes "device_send_cmd E cmd nParams params resp 0 w = (r, resp1, w1)"
    and "unat nParams \<le> 7"
  shows "io w1 = io w @ [WriteFrame (cmd_frame (host E) cmd nParams params)]"
proof -
  have "io (snd (snd (device_send_cmd E cmd nParams params resp 0 w)))
          = io w @ [WriteFrame (cmd_frame (host E) cmd nParams params)]"
    using assms(2) by (rule send_cmd_noresp_io)
  then show ?thesis by (simp only: assms(1) snd_conv)
qed

text \<open>One pass through the body of the upload loop, up to the test of \<open>nSent\<close>.\<close>

lemma upload_chunk_io:
  assumes "device_send_cmd E DEV_CMD_LOADRAM 2 [off, size_bank c bank] [] 0 (fread (uint c) w)
             = (r, resp, w1)"
    and "upload_attempts E (uint c) 0 (- 1) w1 = (n, w2)"
  shows "\<exists>k b. k + (if b then 1 else 0) \<le> 5 \<and>
           io w2 = io w @ WriteFrame (cmd_frame (host E) DEV_CMD_LOADRAM 2 [off, size_bank c bank])
                     # retry_events (WriteData (uint c)) k b"
proof -
  have "unat (2 :: u8) \<le> 7" by simp
  from send_cmd_noresp_world [OF assms(1) this]
  have w1: "io w1 = io w @ [WriteFrame (cmd_frame (host E) DEV_CMD_LOADRAM 2 [off, size_bank c bank])]"
    by simp
  from upload_attempts_shape [of 0 E "uint c" "- 1" w1]
  obtain k b where kb: "k + (if b then 1 else 0) \<le> 5 - 0"
    and "io (snd (upload_attempts E (uint c) 0 (- 1) w1)) = io w1 @ retry_events (WriteData (uint c)) k b"
    by (elim exE conjE)
  then have "io w2 = io w1 @ retry_events (WriteData (uint c)) k b"
    by (simp only: assms(2) snd_conv)
  with w1 have "io w2 = io w @ WriteFrame (cmd_frame (host E) DEV_CMD_LOADRAM 2 [off, size_bank c bank])
                     # retry_events (WriteData (uint c)) k b"
    by simp
  with kb show ?thesis by (intro exI [of _ k] exI [of _ b]) simp
qed


lemma download_chunk_io:
  assumes "device_send_cmd E DEV_CMD_DUMPRAM 2 [off, size_bank c bank] [] 0 w = (r, resp, w1)"
    and "download_attempts E (uint c) 0 (- 1) w1 = (n, w2)"
  shows "\<exists>k b. k + (if b then 1 else 0) \<le> 5 \<and>
           io w2 = io w @ WriteFrame (cmd_frame (host E) DEV_CMD_DUMPRAM 2 [off, size_bank c bank])
                     # retry_events (ReadData (uint c)) k b"
proof -
  have "unat (2 :: u8) \<le> 7" by simp
  from send_cmd_noresp_world [OF assms(1) this]
  have w1: "io w1 = io w @ [WriteFrame (cmd_frame (host E) DEV_CMD_DUMPRAM 2 [off, size_bank c bank])]"
    by simp
  from download_attempts_shape [of 0 E "uint c" "- 1" w1]
  obtain k b where kb: "k + (if b then 1 else 0) \<le> 5 - 0"
    and "io (snd (download_attempts E (uint c) 0 (- 1) w1)) = io w1 @ retry_events (ReadData (uint c)) k b"
    by (elim exE conjE)
  then have "io w2 = io w1 @ retry_events (ReadData (uint c)) k b"
    by (simp only: assms(2) snd_conv)
  with w1 have "io w2 = io w @ WriteFrame (cmd_frame (host E) DEV_CMD_DUMPRAM 2 [off, size_bank c bank])
                     # retry_events (ReadData (uint c)) k b"
    by simp
  with kb show ?thesis by (intro exI [of _ k] exI [of _ b]) simp
qed

text \<open>The loops unfolded once.\<close>

lemma upload_loop_done:
  "\<not> rp < sz \<Longrightarrow> upload_loop E c bank sz off rp w = (0, off, rp, w)"
  by (simp add: upload_loop.simps [of E c bank sz off rp w])

lemma upload_loop_step:
  assumes "rp < sz"
    and "device_send_cmd E DEV_CMD_LOADRAM 2 [off, size_bank c bank] [] 0 (fread (uint c) w)
           = (r, resp, w1)"
    and "upload_attempts E (uint c) 0 (- 1) w1 = (n, w2)"
  shows "upload_loop E c bank sz off rp w =
           (if n \<le> 0 then (n, off, rp, log_err (UploadWriteFailed rp) w2)
            else upload_loop E c bank sz (off + word_of_int n) (rp + n) w2)"
  using assms by (simp add: upload_loop.simps [of E c bank sz off rp w])

lemma download_loop_done:
  "\<not> rp < sz \<Longrightarrow> download_loop E c bank sz off rp w = (0, off, rp, w)"
  by (simp add: download_loop.simps [of E c bank sz off rp w])

lemma download_loop_step:
  assumes "rp < sz"
    and "device_send_cmd E DEV_CMD_DUMPRAM 2 [off, size_bank c bank] [] 0 w = (r, resp, w1)"
    and "download_attempts E (uint c) 0 (- 1) w1 = (n, w2)"
  shows "download_loop E c bank sz off rp w =
           (if n \<le> 0 then (n, off, rp, log_err (DownloadReadFailed rp) w2)
            else download_loop E c bank sz (off + word_of_int n) (rp + n) (fwrite n w2))"
  using assms by (simp add: download_loop.simps [of E c bank sz off rp w])


text \<open>What a loop adds to the trace: at most \<open>size - readPos\<close> frames, and bulk calls
  of the one chunk size only.\<close>

lemma upload_loop_trace:
  "count_frames (io_of (upload_loop E c bank sz off rp w)) \<le> count_frames (io w) + nat (sz - rp)
   \<and> set (bulk_lengths (io_of (upload_loop E c bank sz off rp w)))
         \<subseteq> set (bulk_lengths (io w)) \<union> {uint c}"
proof (induction E c bank sz off rp w rule: upload_loop.induct)
  case (1 E c bank sz off rp w)
  show ?case
  proof (cases "rp < sz")
    case False
    then show ?thesis by (simp add: upload_loop_done io_of_def subset_insertI)
  next
    case True
    obtain r resp w1 where s:
      "device_send_cmd E DEV_CMD_LOADRAM 2 [off, size_bank c bank] [] 0 (fread (uint c) w)
         = (r, resp, w1)"
      by (cases "device_send_cmd E DEV_CMD_LOADRAM 2 [off, size_bank c bank] [] 0 (fread (uint c) w)")
    obtain n w2 where a: "upload_attempts E (uint c) 0 (- 1) w1 = (n, w2)"
      by (cases "upload_attempts E (uint c) 0 (- 1) w1")
    obtain k b where io2:
      "io w2 = io w @ WriteFrame (cmd_frame (host E) DEV_CMD_LOADRAM 2 [off, size_bank c bank])
                 # retry_events (WriteData (uint c)) k b"
      using upload_chunk_io [OF s a] by (elim exE conjE)
    have f2: "count_frames (io w2) = Suc (count_frames (io w))"
      by (simp add: io2 count_frames_append count_frames_retry_write)
    have "set (bulk_lengths (io w2))
            = set (bulk_lengths (io w)) \<union> set (bulk_lengths (retry_events (WriteData (uint c)) k b))"
      by (simp add: io2 bulk_lengths_append)
    with bulk_lengths_retry_write [of "uint c" k b]
    have b2: "set (bulk_lengths (io w2)) \<subseteq> set (bulk_lengths (io w)) \<union> {uint c}"
      by blast
    show ?thesis
    proof (cases "n \<le> 0")
      case True
      then have e: "io_of (upload_loop E c bank sz off rp w) = io w2"
        by (simp add: upload_loop_step [OF \<open>rp < sz\<close> s a] io_of_def)
      have "count_frames (io w2) \<le> count_frames (io w) + nat (sz - rp)"
        using f2 \<open>rp < sz\<close> by simp
      with b2 show ?thesis unfolding e by (rule conjI [rotated])
    next
      case False
      then have u: "upload_loop E c bank sz off rp w
                  = upload_loop E c bank sz (off + word_of_int n) (rp + n) w2"
        by (simp add: upload_loop_step [OF \<open>rp < sz\<close> s a])
      note ih = "1.IH" [OF \<open>rp < sz\<close> refl refl s [symmetric] refl refl a [symmetric] False]
      have "count_frames (io w2) + nat (sz - (rp + n)) \<le> count_frames (io w) + nat (sz - rp)"
        using f2 False \<open>rp < sz\<close> by simp
      with ih [THEN conjunct1]
      have c1: "count_frames (io_of (upload_loop E c bank sz (off + word_of_int n) (rp + n) w2))
              \<le> count_frames (io w) + nat (sz - rp)"
        by (rule order_trans)
      from ih [THEN conjunct2] b2
      have c2: "set (bulk_lengths (io_of (upload_loop E c bank sz (off + word_of_int n) (rp + n) w2)))
              \<subseteq> set (bulk_lengths (io w)) \<union> {uint c}"
        by blast
      from c1 c2 show ?thesis unfolding u by (rule conjI)
    qed
  qed
qed


lemma download_loop_trace:
  "count_frames (io_of (download_loop E c bank sz off rp w)) \<le> count_frames (io w) + nat (sz - rp)
   \<and> set (bulk_lengths (io_of (download_loop E c bank sz off rp w)))
         \<subseteq> set (bulk_lengths (io w)) \<union> {uint c}"
proof (induction E c bank sz off rp w rule: download_loop.induct)
  case (1 E c bank sz off rp w)
  show ?case
  proof (cases "rp < sz")
    case False
    then show ?thesis by (simp add: download_loop_done io_of_def subset_insertI)
  next
    case True
    obtain r resp w1 where s:
      "device_send_cmd E DEV_CMD_DUMPRAM 2 [off, size_bank c bank] [] 0 w = (r, resp, w1)"
      by (cases "device_send_cmd E DEV_CMD_DUMPRAM 2 [off, size_bank c bank] [] 0 w")
    obtain n w2 where a: "download_attempts E (uint c) 0 (- 1) w1 = (n, w2)"
      by (cases "download_attempts E (uint c) 0 (- 1) w1")
    obtain k b where io2:
      "io w2 = io w @ WriteFrame (cmd_frame (host E) DEV_CMD_DUMPRAM 2 [off, size_bank c bank])
                 # retry_events (ReadData (uint c)) k b"
      using download_chunk_io [OF s a] by (elim exE conjE)
    have f2: "count_frames (io w2) = Suc (count_frames (io w))"
      by (simp add: io2 count_frames_append count_frames_retry_read)
    have "set (bulk_lengths (io w2))
            = set (bulk_lengths (io w)) \<union> set (bulk_lengths (retry_events (ReadData (uint c)) k b))"
      by (simp add: io2 bulk_lengths_append)
    with bulk_lengths_retry_read [of "uint c" k b]
    have b2: "set (bulk_lengths (io w2)) \<subseteq> set (bulk_lengths (io w)) \<union> {uint c}"
      by blast
    show ?thesis
    proof (cases "n \<le> 0")
      case True
      then have e: "io_of (download_loop E c bank sz off rp w) = io w2"
        by (simp add: download_loop_step [OF \<open>rp < sz\<close> s a] io_of_def)
      have "count_frames (io w2) \<le> count_frames (io w) + nat (sz - rp)"
        using f2 \<open>rp < sz\<close> by simp
      with b2 show ?thesis unfolding e by (rule conjI [rotated])
    next
      case False
      then have u: "download_loop E c bank sz off rp w
                  = download_loop E c bank sz (off + word_of_int n) (rp + n) (fwrite n w2)"
        by (simp add: download_loop_step [OF \<open>rp < sz\<close> s a])
      note ih = "1.IH" [OF \<open>rp < sz\<close> refl s [symmetric] refl refl a [symmetric] False]
      have "count_frames (io (fwrite n w2)) + nat (sz - (rp + n))
              \<le> count_frames (io w) + nat (sz - rp)"
        using f2 False \<open>rp < sz\<close> by simp
      with ih [THEN conjunct1]
      have c1: "count_frames (io_of (download_loop E c bank sz (off + word_of_int n) (rp + n)
                                      (fwrite n w2)))
              \<le> count_frames (io w) + nat (sz - rp)"
        by (rule order_trans)
      from ih [THEN conjunct2] b2
      have c2: "set (bulk_lengths (io_of (download_loop E c bank sz (off + word_of_int n) (rp + n)
                                           (fwrite n w2))))
              \<subseteq> set (bulk_lengths (io w)) \<union> {uint c}"
        by (simp only: io_fwrite) blast
      from c1 c2 show ?thesis unfolding u by (rule conjI)
    qed
  qed
qed

lemma upload_size_nonneg: "0 \<le> S \<Longrightarrow> upload_size S w = (S, w)"
  by (simp add: upload_size_def)

lemma device_upload_trace:
  assumes "0 \<le> S"
  shows "count_frames (io_of (device_upload E S off bank w)) \<le> count_frames (io w) + nat S
   \<and> set (bulk_lengths (io_of (device_upload E S off bank w)))
         \<subseteq> set (bulk_lengths (io w)) \<union> {uint (chunk_size S)}"
proof (cases "malloc_ok E \<and> chunksize_ret E = 0")
  case False
  then show ?thesis
    using assms
    by (auto simp add: device_upload_def upload_size_nonneg io_of_def Let_def
        count_frames_append bulk_lengths_append)
next
  case True
  then have "device_upload E S off bank w
      = upload_loop E (chunk_size S) bank S off 0 (emit (WriteSetChunksize (uint (chunk_size S))) w)"
    using assms by (simp add: device_upload_def upload_size_nonneg Let_def)
  with upload_loop_trace [of E "chunk_size S" bank S off 0
         "emit (WriteSetChunksize (uint (chunk_size S))) w"]
  show ?thesis
    by (simp add: count_frames_append bulk_lengths_append)
qed

lemma device_download_trace:
  assumes "0 \<le> S"
  shows "count_frames (io_of (device_download E S off bank w)) \<le> count_frames (io w) + nat S
   \<and> set (bulk_lengths (io_of (device_download E S off bank w)))
         \<subseteq> set (bulk_lengths (io w)) \<union> {uint (chunk_size S)}"
proof (cases "malloc_ok E \<and> chunksize_ret E = 0")
  case False
  then show ?thesis
    using assms
    by (auto simp add: device_download_def download_size_def io_of_def Let_def
        count_frames_append bulk_lengths_append)
next
  case True
  then have "device_download E S off bank w
      = download_loop E (chunk_size S) bank S off 0 (emit (ReadSetChunksize (uint (chunk_size S))) w)"
    using assms by (simp add: device_download_def download_size_def Let_def)
  with download_loop_trace [of E "chunk_size S" bank S off 0
         "emit (ReadSetChunksize (uint (chunk_size S))) w"]
  show ?thesis
    by (simp add: count_frames_append bulk_lengths_append)
qed

text \<open>
  C4. For every size \<open>S \<ge> 0\<close> the chunk size is 32, 16 or 4 units of 131072 bytes
  (for \<open>S\<close> above 16 MiB, above 2 MiB, otherwise), clamped to \<open>S\<close>; it is monotone
  in \<open>S\<close>, and a multiple of 131072 unless it is \<open>S\<close> itself. It is computed once
  per call: every bulk call that an upload or download of size \<open>S\<close> makes on the link
  asks for exactly this length.
\<close>

theorem chunk_size_spec:
  assumes "0 \<le> S" and "S \<le> T"
  shows "uint (chunk_size S)
           = min ((if 16 * 1024 * 1024 < S then 32 else if 2 * 1024 * 1024 < S then 16 else 4)
                   * 131072) S
       \<and> uint (chunk_size S) \<le> uint (chunk_size T)
       \<and> (131072 dvd uint (chunk_size S) \<or> uint (chunk_size S) = S)
       \<and> set (bulk_lengths (io_of (device_upload E S off bank w)))
             \<subseteq> set (bulk_lengths (io w)) \<union> {uint (chunk_size S)}
       \<and> set (bulk_lengths (io_of (device_download E S off bank w)))
             \<subseteq> set (bulk_lengths (io w)) \<union> {uint (chunk_size S)}"
proof -
  have T: "0 \<le> T" using assms by simp
  have 1: "uint (chunk_size S)
           = min ((if 16 * 1024 * 1024 < S then 32 else if 2 * 1024 * 1024 < S then 16 else 4)
                   * 131072) S"
    by (simp add: chunk_size_uint [OF assms(1)])
  have 2: "uint (chunk_size S) \<le> uint (chunk_size T)"
    using assms by (simp add: chunk_size_uint [OF assms(1)] chunk_size_uint [OF T])
  have 3: "131072 dvd uint (chunk_size S) \<or> uint (chunk_size S) = S"
    by (simp add: chunk_size_uint [OF assms(1)])
  from 1 2 3 device_upload_trace [OF assms(1), of E off bank w]
    device_download_trace [OF assms(1), of E off bank w]
  show ?thesis by (intro conjI) (elim conjE, assumption)+
qed

text \<open>C4 at the sizes 100 and 1 MiB: the chunk of 100 bytes is the clamp to the size.\<close>

theorem chunk_size_spec_witness:
  "(0 :: int) \<le> 100 \<and> (100 :: int) \<le> 1048576
   \<and> uint (chunk_size 100) = 100
   \<and> uint (chunk_size 100) \<le> uint (chunk_size 1048576)
   \<and> set (bulk_lengths (io_of (device_upload (full_link Little) 100 0 1 (fresh_world 0 100))))
        \<subseteq> {100}"
  using chunk_size_spec [of 100 1048576 "full_link Little" 0 1 "fresh_world 0 100"]
  by (auto simp add: fresh_world_def)

text \<open>
  C10. The per-chunk loops are total functions: their termination is proved above
  with the measure \<open>size - readPos\<close>, since a pass either returns or adds the positive
  \<open>nSent\<close> (\<open>nRecv\<close>) to \<open>readPos\<close>. Each pass writes one command frame, and for every
  size \<open>S \<ge> 0\<close> and every link the loops add at most \<open>S - readPos\<close> frames to the
  trace, a whole call at most \<open>S\<close>: the loop runs at most \<open>S\<close> times.
\<close>

theorem transfer_loop_bounded:
  assumes "0 \<le> S"
  shows "count_frames (io_of (upload_loop E c bank S off rp w))
           \<le> count_frames (io w) + nat (S - rp)
       \<and> count_frames (io_of (download_loop E c bank S off rp w))
           \<le> count_frames (io w) + nat (S - rp)
       \<and> count_frames (io_of (device_upload E S off bank w)) \<le> count_frames (io w) + nat S
       \<and> count_frames (io_of (device_download E S off bank w)) \<le> count_frames (io w) + nat S"
  using upload_loop_trace [of E c bank S off rp w] download_loop_trace [of E c bank S off rp w]
    device_upload_trace [OF assms, of E off bank w] device_download_trace [OF assms, of E off bank w]
  by (intro conjI) (elim conjE, assumption)+


text \<open>C10 at size 100 on the link that moves every byte.\<close>

theorem transfer_loop_bounded_witness:
  "(0 :: int) \<le> 100
   \<and> count_frames (io_of (device_upload (full_link Little) 100 0 1 (fresh_world 0 100))) \<le> 100
   \<and> count_frames (io_of (device_download (full_link Little) 100 0 1 (fresh_world 0 0))) \<le> 100"
  using transfer_loop_bounded [of 100 "full_link Little" "chunk_size 100" 1 0 0 "fresh_world 0 100"]
    transfer_loop_bounded [of 100 "full_link Little" "chunk_size 100" 1 0 0 "fresh_world 0 0"]
  by (auto simp add: fresh_world_def)

text \<open>Five failed attempts in a row.\<close>

lemma upload_attempts_fail_step:
  assumes "t < 5" and "wr_ret E (nwrites w) c \<le> 0"
  shows "upload_attempts E c t n w
           = upload_attempts E c (Suc t) (wr_ret E (nwrites w) c)
               (w\<lparr>nwrites := Suc (nwrites w),
                  io := io w @ [WriteData c, Usleep 10000, PurgeBuffers]\<rparr>)"
  using assms
  by (simp add: upload_attempts.simps [of E c t n w] ftdi_write_data_def emit_def)

lemma upload_attempts_all_fail:
  assumes "\<forall>i<5. wr_ret E (nwrites w + i) c \<le> 0"
  shows "upload_attempts E c 0 n w
           = (wr_ret E (nwrites w + 4) c,
              w\<lparr>nwrites := nwrites w + 5, io := io w @ retry_events (WriteData c) 5 False\<rparr>)"
proof -
  have f: "wr_ret E (nwrites w) c \<le> 0" "wr_ret E (Suc (nwrites w)) c \<le> 0"
    "wr_ret E (Suc (Suc (nwrites w))) c \<le> 0" "wr_ret E (Suc (Suc (Suc (nwrites w)))) c \<le> 0"
    "wr_ret E (Suc (Suc (Suc (Suc (nwrites w))))) c \<le> 0"
    using assms [rule_format, of 0] assms [rule_format, of 1] assms [rule_format, of 2]
      assms [rule_format, of 3] assms [rule_format, of 4]
    by (simp_all add: numeral_eq_Suc)
  show ?thesis
    apply (subst upload_attempts_fail_step, simp, simp add: f)
    apply (subst upload_attempts_fail_step, simp, simp add: f)
    apply (subst upload_attempts_fail_step, simp, simp add: f)
    apply (subst upload_attempts_fail_step, simp, simp add: f)
    apply (subst upload_attempts_fail_step, simp, simp add: f)
    apply (simp add: upload_attempts.simps retry_events_def numeral_eq_Suc)
    done
qed


lemma download_attempts_fail_step:
  assumes "t < 5" and "fst (rd_ret E (nreads w) c) \<le> 0"
  shows "download_attempts E c t n w
           = download_attempts E c (Suc t) (fst (rd_ret E (nreads w) c))
               (w\<lparr>nreads := Suc (nreads w),
                  io := io w @ [ReadData c, Usleep 10000, PurgeBuffers]\<rparr>)"
  using assms
  by (simp add: download_attempts.simps [of E c t n w] ftdi_read_buffer_def emit_def)

lemma download_attempts_all_fail:
  assumes "\<forall>i<5. fst (rd_ret E (nreads w + i) c) \<le> 0"
  shows "download_attempts E c 0 n w
           = (fst (rd_ret E (nreads w + 4) c),
              w\<lparr>nreads := nreads w + 5, io := io w @ retry_events (ReadData c) 5 False\<rparr>)"
proof -
  have f: "fst (rd_ret E (nreads w) c) \<le> 0" "fst (rd_ret E (Suc (nreads w)) c) \<le> 0"
    "fst (rd_ret E (Suc (Suc (nreads w))) c) \<le> 0"
    "fst (rd_ret E (Suc (Suc (Suc (nreads w)))) c) \<le> 0"
    "fst (rd_ret E (Suc (Suc (Suc (Suc (nreads w))))) c) \<le> 0"
    using assms [rule_format, of 0] assms [rule_format, of 1] assms [rule_format, of 2]
      assms [rule_format, of 3] assms [rule_format, of 4]
    by (simp_all add: numeral_eq_Suc)
  show ?thesis
    apply (subst download_attempts_fail_step, simp, simp add: f)
    apply (subst download_attempts_fail_step, simp, simp add: f)
    apply (subst download_attempts_fail_step, simp, simp add: f)
    apply (subst download_attempts_fail_step, simp, simp add: f)
    apply (subst download_attempts_fail_step, simp, simp add: f)
    apply (simp add: download_attempts.simps retry_events_def numeral_eq_Suc)
    done
qed

text \<open>A command of two parameters and no response, in full.\<close>

lemma send_cmd2_noresp:
  "device_send_cmd E cmd 2 params resp 0 w
     = (wr_ret E (nwrites w) 12, resp,
        w\<lparr>io := io w @ [WriteFrame (cmd_frame (host E) cmd 2 params)],
           errs := errs w @ (if wr_ret E (nwrites w) 12 \<le> 0 then [SendCmdWriteFailed cmd] else []),
           nwrites := Suc (nwrites w)\<rparr>)"
  by (simp add: device_send_cmd_def ftdi_write_frame_def log_err_def length_cmd_frame)

text \<open>What the retry loops add to the trace on every link, and a chunk whose five
  attempts all fail.\<close>

lemma retry_exhausted_aborts:
  "(\<exists>k b. k + (if b then 1 else 0) \<le> 5 \<and>
       io (snd (upload_attempts E (uint c) 0 (- 1) w)) = io w @ retry_events (WriteData (uint c)) k b)
   \<and> (\<exists>k b. k + (if b then 1 else 0) \<le> 5 \<and>
       io (snd (download_attempts E (uint c) 0 (- 1) w)) = io w @ retry_events (ReadData (uint c)) k b)
   \<and> (rp < sz \<and> (\<forall>i<5. wr_ret E (Suc (nwrites w) + i) (uint c) \<le> 0) \<longrightarrow>
        ret_of (upload_loop E c bank sz off rp w) = wr_ret E (nwrites w + 5) (uint c)
        \<and> ret_of (upload_loop E c bank sz off rp w) \<le> 0
        \<and> moved_of (upload_loop E c bank sz off rp w) = rp
        \<and> io_of (upload_loop E c bank sz off rp w)
            = io w @ WriteFrame (cmd_frame (host E) DEV_CMD_LOADRAM 2 [off, size_bank c bank])
                # retry_events (WriteData (uint c)) 5 False
        \<and> errs (world_of (upload_loop E c bank sz off rp w))
            = errs w @ (if wr_ret E (nwrites w) 12 \<le> 0 then [SendCmdWriteFailed DEV_CMD_LOADRAM] else [])
                @ [UploadWriteFailed rp])
   \<and> (rp < sz \<and> (\<forall>i<5. fst (rd_ret E (nreads w + i) (uint c)) \<le> 0) \<longrightarrow>
        ret_of (download_loop E c bank sz off rp w) = fst (rd_ret E (nreads w + 4) (uint c))
        \<and> ret_of (download_loop E c bank sz off rp w) \<le> 0
        \<and> moved_of (download_loop E c bank sz off rp w) = rp
        \<and> io_of (download_loop E c bank sz off rp w)
            = io w @ WriteFrame (cmd_frame (host E) DEV_CMD_DUMPRAM 2 [off, size_bank c bank])
                # retry_events (ReadData (uint c)) 5 False
        \<and> errs (world_of (download_loop E c bank sz off rp w))
            = errs w @ (if wr_ret E (nwrites w) 12 \<le> 0 then [SendCmdWriteFailed DEV_CMD_DUMPRAM] else [])
                @ [DownloadReadFailed rp])"
proof (intro conjI impI)
  show "\<exists>k b. k + (if b then 1 else 0) \<le> 5 \<and>
       io (snd (upload_attempts E (uint c) 0 (- 1) w)) = io w @ retry_events (WriteData (uint c)) k b"
    using upload_attempts_shape [of 0 E "uint c" "- 1" w] by simp
  show "\<exists>k b. k + (if b then 1 else 0) \<le> 5 \<and>
       io (snd (download_attempts E (uint c) 0 (- 1) w)) = io w @ retry_events (ReadData (uint c)) k b"
    using download_attempts_shape [of 0 E "uint c" "- 1" w] by simp
next
  assume h: "rp < sz \<and> (\<forall>i<5. wr_ret E (Suc (nwrites w) + i) (uint c) \<le> 0)"
  let ?wc = "(fread (uint c) w)\<lparr>io := io w @ [WriteFrame (cmd_frame (host E) DEV_CMD_LOADRAM 2 [off, size_bank c bank])],
           errs := errs w @ (if wr_ret E (nwrites w) 12 \<le> 0 then [SendCmdWriteFailed DEV_CMD_LOADRAM] else []),
           nwrites := Suc (nwrites w)\<rparr>"
  have nf: "nwrites (fread (uint c) w) = nwrites w" "errs (fread (uint c) w) = errs w"
    by (simp_all add: fread_def Let_def)
  have s: "device_send_cmd E DEV_CMD_LOADRAM 2 [off, size_bank c bank] [] 0 (fread (uint c) w)
             = (wr_ret E (nwrites w) 12, [], ?wc)"
    by (simp add: send_cmd2_noresp nf)
  have "\<forall>i<5. wr_ret E (nwrites ?wc + i) (uint c) \<le> 0"
    using h by simp
  note a = upload_attempts_all_fail [OF this, of "- 1"]
  have le: "wr_ret E (nwrites ?wc + 4) (uint c) \<le> 0"
    using h [THEN conjunct2, rule_format, of 4] by simp
  have u: "upload_loop E c bank sz off rp w
         = (wr_ret E (nwrites ?wc + 4) (uint c), off, rp,
            log_err (UploadWriteFailed rp)
              (?wc\<lparr>nwrites := nwrites ?wc + 5, io := io ?wc @ retry_events (WriteData (uint c)) 5 False\<rparr>))"
    using le by (simp only: upload_loop_step [OF conjunct1 [OF h] s a] if_True)
  show "ret_of (upload_loop E c bank sz off rp w) = wr_ret E (nwrites w + 5) (uint c)"
    by (simp add: u ret_of_def add.commute)
  show "ret_of (upload_loop E c bank sz off rp w) \<le> 0"
    using le by (simp add: u ret_of_def)
  show "moved_of (upload_loop E c bank sz off rp w) = rp"
    by (simp add: u moved_of_def)
  show "io_of (upload_loop E c bank sz off rp w)
            = io w @ WriteFrame (cmd_frame (host E) DEV_CMD_LOADRAM 2 [off, size_bank c bank])
                # retry_events (WriteData (uint c)) 5 False"
    by (simp add: u io_of_def)
  show "errs (world_of (upload_loop E c bank sz off rp w))
            = errs w @ (if wr_ret E (nwrites w) 12 \<le> 0 then [SendCmdWriteFailed DEV_CMD_LOADRAM] else [])
                @ [UploadWriteFailed rp]"
    by (simp add: u world_of_def log_err_def)
next
  assume h: "rp < sz \<and> (\<forall>i<5. fst (rd_ret E (nreads w + i) (uint c)) \<le> 0)"
  let ?wc = "w\<lparr>io := io w @ [WriteFrame (cmd_frame (host E) DEV_CMD_DUMPRAM 2 [off, size_bank c bank])],
           errs := errs w @ (if wr_ret E (nwrites w) 12 \<le> 0 then [SendCmdWriteFailed DEV_CMD_DUMPRAM] else []),
           nwrites := Suc (nwrites w)\<rparr>"
  have s: "device_send_cmd E DEV_CMD_DUMPRAM 2 [off, size_bank c bank] [] 0 w
             = (wr_ret E (nwrites w) 12, [], ?wc)"
    by (simp add: send_cmd2_noresp)
  have "\<forall>i<5. fst (rd_ret E (nreads ?wc + i) (uint c)) \<le> 0"
    using h by simp
  note a = download_attempts_all_fail [OF this, of "- 1"]
  have le: "fst (rd_ret E (nreads ?wc + 4) (uint c)) \<le> 0"
    using h [THEN conjunct2, rule_format, of 4] by simp
  have u: "download_loop E c bank sz off rp w
         = (fst (rd_ret E (nreads ?wc + 4) (uint c)), off, rp,
            log_err (DownloadReadFailed rp)
              (?wc\<lparr>nreads := nreads ?wc + 5, io := io ?wc @ retry_events (ReadData (uint c)) 5 False\<rparr>))"
    using le by (simp only: download_loop_step [OF conjunct1 [OF h] s a] if_True)
  show "ret_of (download_loop E c bank sz off rp w) = fst (rd_ret E (nreads w + 4) (uint c))"
    by (simp add: u ret_of_def add.commute)
  show "ret_of (download_loop E c bank sz off rp w) \<le> 0"
    using le by (simp add: u ret_of_def)
  show "moved_of (download_loop E c bank sz off rp w) = rp"
    by (simp add: u moved_of_def)
  show "io_of (download_loop E c bank sz off rp w)
            = io w @ WriteFrame (cmd_frame (host E) DEV_CMD_DUMPRAM 2 [off, size_bank c bank])
                # retry_events (ReadData (uint c)) 5 False"
    by (simp add: u io_of_def)
  show "errs (world_of (download_loop E c bank sz off rp w))
            = errs w @ (if wr_ret E (nwrites w) 12 \<le> 0 then [SendCmdWriteFailed DEV_CMD_DUMPRAM] else [])
                @ [DownloadReadFailed rp]"
    by (simp add: u world_of_def log_err_def)
qed

text \<open>A chunk rescued by a retry: after \<open>j\<close> failed attempts, attempt \<open>j + 1\<close> moves
  \<open>n > 0\<close> bytes, and the loop goes on from \<open>readPos + n\<close>.\<close>

lemma upload_attempts_rescued:
  assumes "t + j < 5" and "\<forall>i<j. wr_ret E (nwrites w + i) c \<le> 0"
    and "0 < wr_ret E (nwrites w + j) c"
  shows "upload_attempts E c t n w = (wr_ret E (nwrites w + j) c, attempted_writes c j True w)"
  using assms
proof (induction j arbitrary: t n w)
  case 0
  have "w\<lparr>io := io w @ [WriteData c], nwrites := Suc (nwrites w)\<rparr> = attempted_writes c 0 True w"
    by (rule world.equality) (simp_all add: attempted_writes_def retry_events_def)
  with 0 show ?case
    by (simp add: upload_attempts.simps [of E c t n w] ftdi_write_data_def)
next
  case (Suc j)
  let ?w = "w\<lparr>nwrites := Suc (nwrites w),
              io := io w @ [WriteData c, Usleep 10000, PurgeBuffers]\<rparr>"
  have f0: "wr_ret E (nwrites w) c \<le> 0"
    using Suc.prems(2) [rule_format, of 0] by simp
  have t5: "t < 5" using Suc.prems(1) by simp
  have step: "upload_attempts E c t n w = upload_attempts E c (Suc t) (wr_ret E (nwrites w) c) ?w"
    using upload_attempts_fail_step [OF t5 f0] .
  have a: "Suc t + j < 5" using Suc.prems(1) by simp
  have b: "\<forall>i<j. wr_ret E (nwrites ?w + i) c \<le> 0"
    using Suc.prems(2) by (auto dest: spec [of _ "Suc _"])
  have c: "0 < wr_ret E (nwrites ?w + j) c"
    using Suc.prems(3) by simp
  have e: "attempted_writes c j True ?w = attempted_writes c (Suc j) True w"
    by (rule world.equality) (simp_all add: attempted_writes_def retry_events_def)
  from Suc.IH [OF a b c, of "wr_ret E (nwrites w) c"]
  show ?case
    by (simp add: step e)
qed


lemma download_attempts_rescued:
  assumes "t + j < 5" and "\<forall>i<j. fst (rd_ret E (nreads w + i) c) \<le> 0"
    and "0 < fst (rd_ret E (nreads w + j) c)"
  shows "download_attempts E c t n w
           = (fst (rd_ret E (nreads w + j) c), attempted_reads c j True w)"
  using assms
proof (induction j arbitrary: t n w)
  case 0
  have "w\<lparr>io := io w @ [ReadData c], nreads := Suc (nreads w)\<rparr> = attempted_reads c 0 True w"
    by (rule world.equality) (simp_all add: attempted_reads_def retry_events_def)
  with 0 show ?case
    by (simp add: download_attempts.simps [of E c t n w] ftdi_read_buffer_def)
next
  case (Suc j)
  let ?w = "w\<lparr>nreads := Suc (nreads w),
              io := io w @ [ReadData c, Usleep 10000, PurgeBuffers]\<rparr>"
  have f0: "fst (rd_ret E (nreads w) c) \<le> 0"
    using Suc.prems(2) [rule_format, of 0] by simp
  have t5: "t < 5" using Suc.prems(1) by simp
  have step: "download_attempts E c t n w
                = download_attempts E c (Suc t) (fst (rd_ret E (nreads w) c)) ?w"
    using download_attempts_fail_step [OF t5 f0] .
  have a: "Suc t + j < 5" using Suc.prems(1) by simp
  have b: "\<forall>i<j. fst (rd_ret E (nreads ?w + i) c) \<le> 0"
    using Suc.prems(2) by (auto dest: spec [of _ "Suc _"])
  have c: "0 < fst (rd_ret E (nreads ?w + j) c)"
    using Suc.prems(3) by simp
  have e: "attempted_reads c j True ?w = attempted_reads c (Suc j) True w"
    by (rule world.equality) (simp_all add: attempted_reads_def retry_events_def)
  from Suc.IH [OF a b c, of "fst (rd_ret E (nreads w) c)"]
  show ?case
    by (simp add: step e)
qed

lemma commanded_counts:
  "nwrites (commanded E cmd off c bank w) = Suc (nwrites w)"
  "nreads (commanded E cmd off c bank w) = nreads w"
  "io (commanded E cmd off c bank w)
     = io w @ [WriteFrame (cmd_frame (host E) cmd 2 [off, size_bank c bank])]"
  by (simp_all add: commanded_def send_cmd2_noresp)

lemma send_cmd_commanded:
  "device_send_cmd E cmd 2 [off, size_bank c bank] [] 0 w
     = (wr_ret E (nwrites w) 12, [], commanded E cmd off c bank w)"
  by (simp add: commanded_def send_cmd2_noresp)

lemma upload_loop_rescued:
  assumes "rp < sz" and "j < 5"
    and "\<forall>i<j. wr_ret E (Suc (nwrites w) + i) (uint c) \<le> 0"
    and "0 < wr_ret E (Suc (nwrites w) + j) (uint c)"
  shows "upload_loop E c bank sz off rp w
           = upload_loop E c bank sz
               (off + word_of_int (wr_ret E (Suc (nwrites w) + j) (uint c)))
               (rp + wr_ret E (Suc (nwrites w) + j) (uint c))
               (attempted_writes (uint c) j True
                  (commanded E DEV_CMD_LOADRAM off c bank (fread (uint c) w)))"
proof -
  let ?wc = "commanded E DEV_CMD_LOADRAM off c bank (fread (uint c) w)"
  have nf: "nwrites (fread (uint c) w) = nwrites w"
    by (simp add: fread_def Let_def)
  have n: "nwrites ?wc = Suc (nwrites w)"
    by (simp add: commanded_counts nf)
  have a: "upload_attempts E (uint c) 0 (- 1) ?wc
             = (wr_ret E (nwrites ?wc + j) (uint c), attempted_writes (uint c) j True ?wc)"
    using assms(2-4) by (intro upload_attempts_rescued) (simp_all add: n)
  have pos: "\<not> wr_ret E (nwrites ?wc + j) (uint c) \<le> 0"
    using assms(4) by (simp add: n)
  show ?thesis
    using pos
    by (simp add: upload_loop_step [OF assms(1) send_cmd_commanded a] n)
qed

lemma download_loop_rescued:
  assumes "rp < sz" and "j < 5"
    and "\<forall>i<j. fst (rd_ret E (nreads w + i) (uint c)) \<le> 0"
    and "0 < fst (rd_ret E (nreads w + j) (uint c))"
  shows "download_loop E c bank sz off rp w
           = download_loop E c bank sz
               (off + word_of_int (fst (rd_ret E (nreads w + j) (uint c))))
               (rp + fst (rd_ret E (nreads w + j) (uint c)))
               (fwrite (fst (rd_ret E (nreads w + j) (uint c)))
                  (attempted_reads (uint c) j True (commanded E DEV_CMD_DUMPRAM off c bank w)))"
proof -
  let ?wc = "commanded E DEV_CMD_DUMPRAM off c bank w"
  have n: "nreads ?wc = nreads w"
    by (simp add: commanded_counts)
  have a: "download_attempts E (uint c) 0 (- 1) ?wc
             = (fst (rd_ret E (nreads ?wc + j) (uint c)), attempted_reads (uint c) j True ?wc)"
    using assms(2-4) by (intro download_attempts_rescued) (simp_all add: n)
  have pos: "\<not> fst (rd_ret E (nreads ?wc + j) (uint c)) \<le> 0"
    using assms(4) by (simp add: n)
  show ?thesis
    using pos
    by (simp add: download_loop_step [OF assms(1) send_cmd_commanded a] n)
qed


text \<open>
  C5, as amended. On every link the bulk transfer of a chunk is attempted at most 5
  times, and each failed attempt (a result \<open>\<le> 0\<close>) is followed by the delay of 10 ms
  and the purge, so each retry is preceded by them. When an attempt succeeds after
  \<open>j < 5\<close> failed ones, its byte count is the count of the chunk and the transfer
  goes on from there. When all 5 attempts of a chunk fail, the call stops: what it
  returns is the result of the last attempt, which is not positive (a failure flag,
  not a byte count), and the number of bytes the chunks before moved appears only
  in the message written to \<open>stderr\<close>.
\<close>

theorem chunk_retry_policy:
  "(\<exists>k b. k + (if b then 1 else 0) \<le> 5 \<and>
       io (snd (upload_attempts E (uint c) 0 (- 1) w)) = io w @ retry_events (WriteData (uint c)) k b)
   \<and> (\<exists>k b. k + (if b then 1 else 0) \<le> 5 \<and>
       io (snd (download_attempts E (uint c) 0 (- 1) w)) = io w @ retry_events (ReadData (uint c)) k b)
   \<and> (rp < sz \<and> (\<forall>i<5. wr_ret E (Suc (nwrites w) + i) (uint c) \<le> 0) \<longrightarrow>
        ret_of (upload_loop E c bank sz off rp w) = wr_ret E (nwrites w + 5) (uint c)
        \<and> ret_of (upload_loop E c bank sz off rp w) \<le> 0
        \<and> moved_of (upload_loop E c bank sz off rp w) = rp
        \<and> io_of (upload_loop E c bank sz off rp w)
            = io w @ WriteFrame (cmd_frame (host E) DEV_CMD_LOADRAM 2 [off, size_bank c bank])
                # retry_events (WriteData (uint c)) 5 False
        \<and> errs (world_of (upload_loop E c bank sz off rp w))
            = errs w @ (if wr_ret E (nwrites w) 12 \<le> 0 then [SendCmdWriteFailed DEV_CMD_LOADRAM] else [])
                @ [UploadWriteFailed rp])
   \<and> (rp < sz \<and> (\<forall>i<5. fst (rd_ret E (nreads w + i) (uint c)) \<le> 0) \<longrightarrow>
        ret_of (download_loop E c bank sz off rp w) = fst (rd_ret E (nreads w + 4) (uint c))
        \<and> ret_of (download_loop E c bank sz off rp w) \<le> 0
        \<and> moved_of (download_loop E c bank sz off rp w) = rp
        \<and> io_of (download_loop E c bank sz off rp w)
            = io w @ WriteFrame (cmd_frame (host E) DEV_CMD_DUMPRAM 2 [off, size_bank c bank])
                # retry_events (ReadData (uint c)) 5 False
        \<and> errs (world_of (download_loop E c bank sz off rp w))
            = errs w @ (if wr_ret E (nwrites w) 12 \<le> 0 then [SendCmdWriteFailed DEV_CMD_DUMPRAM] else [])
                @ [DownloadReadFailed rp])
   \<and> (j < 5 \<and> (\<forall>i<j. wr_ret E (nwrites w + i) (uint c) \<le> 0)
        \<and> 0 < wr_ret E (nwrites w + j) (uint c) \<longrightarrow>
        upload_attempts E (uint c) 0 (- 1) w
          = (wr_ret E (nwrites w + j) (uint c), attempted_writes (uint c) j True w))
   \<and> (j < 5 \<and> (\<forall>i<j. fst (rd_ret E (nreads w + i) (uint c)) \<le> 0)
        \<and> 0 < fst (rd_ret E (nreads w + j) (uint c)) \<longrightarrow>
        download_attempts E (uint c) 0 (- 1) w
          = (fst (rd_ret E (nreads w + j) (uint c)), attempted_reads (uint c) j True w))
   \<and> (rp < sz \<and> j < 5 \<and> (\<forall>i<j. wr_ret E (Suc (nwrites w) + i) (uint c) \<le> 0)
        \<and> 0 < wr_ret E (Suc (nwrites w) + j) (uint c) \<longrightarrow>
        upload_loop E c bank sz off rp w
          = upload_loop E c bank sz
              (off + word_of_int (wr_ret E (Suc (nwrites w) + j) (uint c)))
              (rp + wr_ret E (Suc (nwrites w) + j) (uint c))
              (attempted_writes (uint c) j True
                 (commanded E DEV_CMD_LOADRAM off c bank (fread (uint c) w))))
   \<and> (rp < sz \<and> j < 5 \<and> (\<forall>i<j. fst (rd_ret E (nreads w + i) (uint c)) \<le> 0)
        \<and> 0 < fst (rd_ret E (nreads w + j) (uint c)) \<longrightarrow>
        download_loop E c bank sz off rp w
          = download_loop E c bank sz
              (off + word_of_int (fst (rd_ret E (nreads w + j) (uint c))))
              (rp + fst (rd_ret E (nreads w + j) (uint c)))
              (fwrite (fst (rd_ret E (nreads w + j) (uint c)))
                 (attempted_reads (uint c) j True (commanded E DEV_CMD_DUMPRAM off c bank w))))"
proof -
  note old = retry_exhausted_aborts [of E c w rp sz bank off]
  note o1 = old [THEN conjunct1]
  note o2 = old [THEN conjunct2, THEN conjunct1]
  note o3 = old [THEN conjunct2, THEN conjunct2, THEN conjunct1]
  note o4 = old [THEN conjunct2, THEN conjunct2, THEN conjunct2]
  have a: "j < 5 \<and> (\<forall>i<j. wr_ret E (nwrites w + i) (uint c) \<le> 0)
        \<and> 0 < wr_ret E (nwrites w + j) (uint c) \<longrightarrow>
        upload_attempts E (uint c) 0 (- 1) w
          = (wr_ret E (nwrites w + j) (uint c), attempted_writes (uint c) j True w)"
    by (intro impI, elim conjE, rule upload_attempts_rescued) simp_all
  have b: "j < 5 \<and> (\<forall>i<j. fst (rd_ret E (nreads w + i) (uint c)) \<le> 0)
        \<and> 0 < fst (rd_ret E (nreads w + j) (uint c)) \<longrightarrow>
        download_attempts E (uint c) 0 (- 1) w
          = (fst (rd_ret E (nreads w + j) (uint c)), attempted_reads (uint c) j True w)"
    by (intro impI, elim conjE, rule download_attempts_rescued) simp_all
  have c: "rp < sz \<and> j < 5 \<and> (\<forall>i<j. wr_ret E (Suc (nwrites w) + i) (uint c) \<le> 0)
        \<and> 0 < wr_ret E (Suc (nwrites w) + j) (uint c) \<longrightarrow>
        upload_loop E c bank sz off rp w
          = upload_loop E c bank sz
              (off + word_of_int (wr_ret E (Suc (nwrites w) + j) (uint c)))
              (rp + wr_ret E (Suc (nwrites w) + j) (uint c))
              (attempted_writes (uint c) j True
                 (commanded E DEV_CMD_LOADRAM off c bank (fread (uint c) w)))"
    by (intro impI, elim conjE, rule upload_loop_rescued)
  have d: "rp < sz \<and> j < 5 \<and> (\<forall>i<j. fst (rd_ret E (nreads w + i) (uint c)) \<le> 0)
        \<and> 0 < fst (rd_ret E (nreads w + j) (uint c)) \<longrightarrow>
        download_loop E c bank sz off rp w
          = download_loop E c bank sz
              (off + word_of_int (fst (rd_ret E (nreads w + j) (uint c))))
              (rp + fst (rd_ret E (nreads w + j) (uint c)))
              (fwrite (fst (rd_ret E (nreads w + j) (uint c)))
                 (attempted_reads (uint c) j True (commanded E DEV_CMD_DUMPRAM off c bank w)))"
    by (intro impI, elim conjE, rule download_loop_rescued)
  show ?thesis
    by (intro conjI) (rule o1, rule o2, rule o3, rule o4, rule a, rule b, rule c, rule d)
qed


text \<open>C5 as amended: on a link whose bulk calls all fail, entered after 524288
  bytes, and on a link where a chunk of 100 bytes is moved by a retry.\<close>

theorem chunk_retry_policy_witness:
  "ret_of (upload_loop (dying_link 0) 524288 1 1048576 524288 524288 (fresh_world 524288 1048576)) = - 1
   \<and> moved_of (upload_loop (dying_link 0) 524288 1 1048576 524288 524288
                  (fresh_world 524288 1048576)) = 524288
   \<and> errs (world_of (upload_loop (dying_link 0) 524288 1 1048576 524288 524288
                        (fresh_world 524288 1048576))) = [UploadWriteFailed 524288]
   \<and> ret_of (download_loop (dying_link 0) 524288 1 1048576 524288 524288 (fresh_world 0 0)) = - 1
   \<and> errs (world_of (download_loop (dying_link 0) 524288 1 1048576 524288 524288
                        (fresh_world 0 0))) = [DownloadReadFailed 524288]
   \<and> upload_attempts flaky_link 100 0 (- 1) (fresh_world 0 100)
       = (100, attempted_writes 100 3 True (fresh_world 0 100))
   \<and> ret_of (upload_loop flaky_link 100 1 100 0 0 (fresh_world 0 100)) = 0
   \<and> moved_of (upload_loop flaky_link 100 1 100 0 0 (fresh_world 0 100)) = 100
   \<and> bulk_lengths (io_of (upload_loop flaky_link 100 1 100 0 0 (fresh_world 0 100)))
       = [100, 100, 100]
   \<and> ret_of (download_loop flaky_link 100 1 100 0 0 (fresh_world 0 0)) = 0
   \<and> moved_of (download_loop flaky_link 100 1 100 0 0 (fresh_world 0 0)) = 100"
proof -
  have h1: "(524288 :: int) < 1048576
            \<and> (\<forall>i<5. wr_ret (dying_link 0) (Suc (nwrites (fresh_world 524288 1048576)) + i)
                         (uint (524288 :: u32)) \<le> 0)"
    by (simp add: dying_link_def)
  have h2: "(524288 :: int) < 1048576
            \<and> (\<forall>i<5. fst (rd_ret (dying_link 0) (nreads (fresh_world 0 0) + i)
                              (uint (524288 :: u32))) \<le> 0)"
    by (simp add: dying_link_def)
  let ?w1 = "fresh_world 0 100"
  have h3: "(3 :: nat) < 5 \<and> (\<forall>i<3. wr_ret flaky_link (nwrites ?w1 + i) (uint (100 :: u32)) \<le> 0)
            \<and> 0 < wr_ret flaky_link (nwrites ?w1 + 3) (uint (100 :: u32))"
    by (simp add: flaky_link_def fresh_world_def)
  have h4: "(0 :: int) < 100 \<and> (2 :: nat) < 5
            \<and> (\<forall>i<2. wr_ret flaky_link (Suc (nwrites (fresh_world 0 100)) + i)
                         (uint (100 :: u32)) \<le> 0)
            \<and> 0 < wr_ret flaky_link (Suc (nwrites (fresh_world 0 100)) + 2) (uint (100 :: u32))"
    by (simp add: flaky_link_def fresh_world_def)
  have h5: "(0 :: int) < 100 \<and> (2 :: nat) < 5
            \<and> (\<forall>i<2. fst (rd_ret flaky_link (nreads (fresh_world 0 0) + i)
                              (uint (100 :: u32))) \<le> 0)
            \<and> 0 < fst (rd_ret flaky_link (nreads (fresh_world 0 0) + 2) (uint (100 :: u32)))"
    by (simp add: flaky_link_def fresh_world_def)
  note t1 = chunk_retry_policy [of "dying_link 0" 524288 "fresh_world 524288 1048576"
      524288 1048576 1 524288 0, THEN conjunct2, THEN conjunct2, THEN conjunct1, THEN mp, OF h1]
  note t2 = chunk_retry_policy [of "dying_link 0" 524288 "fresh_world 0 0"
      524288 1048576 1 524288 0, THEN conjunct2, THEN conjunct2, THEN conjunct2, THEN conjunct1,
      THEN mp, OF h2]
  note t3 = chunk_retry_policy [of flaky_link 100 ?w1 0 100 1 0 3,
      THEN conjunct2, THEN conjunct2, THEN conjunct2, THEN conjunct2, THEN conjunct1,
      THEN mp, OF h3]
  note t4 = chunk_retry_policy [of flaky_link 100 "fresh_world 0 100" 0 100 1 0 2,
      THEN conjunct2, THEN conjunct2, THEN conjunct2, THEN conjunct2, THEN conjunct2,
      THEN conjunct2, THEN conjunct1, THEN mp, OF h4]
  note t5 = chunk_retry_policy [of flaky_link 100 "fresh_world 0 0" 0 100 1 0 2,
      THEN conjunct2, THEN conjunct2, THEN conjunct2, THEN conjunct2, THEN conjunct2,
      THEN conjunct2, THEN conjunct2, THEN mp, OF h5]
  have w3: "wr_ret flaky_link (nwrites ?w1 + 3) (uint (100 :: u32)) = 100"
    by (simp add: flaky_link_def fresh_world_def)
  have w4: "wr_ret flaky_link (Suc (nwrites (fresh_world 0 100)) + 2) (uint (100 :: u32)) = 100"
    by (simp add: flaky_link_def fresh_world_def)
  have w5: "fst (rd_ret flaky_link (nreads (fresh_world 0 0) + 2) (uint (100 :: u32))) = 100"
    by (simp add: flaky_link_def fresh_world_def)
  have r2: "replicate 2 x = [x, x]" for x :: "event list"
    by (simp add: numeral_2_eq_2)
  have u: "ret_of (upload_loop flaky_link 100 1 100 0 0 (fresh_world 0 100)) = 0
     \<and> moved_of (upload_loop flaky_link 100 1 100 0 0 (fresh_world 0 100)) = 100
     \<and> bulk_lengths (io_of (upload_loop flaky_link 100 1 100 0 0 (fresh_world 0 100)))
         = [100, 100, 100]"
    unfolding t4 w4
    by (simp add: upload_loop_done ret_of_def moved_of_def io_of_def attempted_writes_def
        commanded_counts retry_events_def bulk_lengths_append fresh_world_def r2)
  have d: "ret_of (download_loop flaky_link 100 1 100 0 0 (fresh_world 0 0)) = 0
     \<and> moved_of (download_loop flaky_link 100 1 100 0 0 (fresh_world 0 0)) = 100"
    unfolding t5 w5
    by (simp add: download_loop_done ret_of_def moved_of_def)
  from t1 t2 t3 [unfolded w3] u d show ?thesis
    by (simp add: dying_link_def fresh_world_def)
qed


text \<open>
  C5 as stated fails. An upload of 1 MiB whose second chunk fails five times returns
  -1, not the 524288 bytes it had moved. On a link whose bulk writes return 0 the
  aborted upload returns 0, the value a complete upload returns as well. The caller
  is given a failure flag at most; the count is in the \<open>stderr\<close> message only.
\<close>

theorem retry_exhausted_returns_flag:
  "ret_of (device_upload (dying_link 2) 1048576 0 1 (fresh_world 0 1048576)) = - 1
   \<and> moved_of (device_upload (dying_link 2) 1048576 0 1 (fresh_world 0 1048576)) = 524288
   \<and> ret_of (device_upload stalled_link 524288 0 1 (fresh_world 0 524288)) = 0
   \<and> errs (world_of (device_upload stalled_link 524288 0 1 (fresh_world 0 524288)))
       = [UploadWriteFailed 0]
   \<and> ret_of (device_upload (full_link Little) 524288 0 1 (fresh_world 0 524288)) = 0"
proof -
  have a: "ret_of (device_upload (dying_link 2) 1048576 0 1 (fresh_world 0 1048576)) = - 1
   \<and> moved_of (device_upload (dying_link 2) 1048576 0 1 (fresh_world 0 1048576)) = 524288"
    by code_simp
  have b: "ret_of (device_upload (full_link Little) 524288 0 1 (fresh_world 0 524288)) = 0"
    by code_simp
  let ?w = "emit (WriteSetChunksize 524288) (fresh_world 0 524288)"
  have d: "device_upload stalled_link 524288 0 1 (fresh_world 0 524288)
             = upload_loop stalled_link 524288 1 524288 0 0 ?w"
    by (simp add: device_upload_def upload_size_def chunk_size_def stalled_link_def Let_def)
  have h: "(0 :: int) < 524288
           \<and> (\<forall>i<5. wr_ret stalled_link (Suc (nwrites ?w) + i) (uint (524288 :: u32)) \<le> 0)"
    by (simp add: stalled_link_def)
  note t = retry_exhausted_aborts [of stalled_link 524288 ?w 0 524288 1 0,
      THEN conjunct2, THEN conjunct2, THEN conjunct1, THEN mp, OF h]
  have c: "ret_of (device_upload stalled_link 524288 0 1 (fresh_world 0 524288)) = 0
      \<and> errs (world_of (device_upload stalled_link 524288 0 1 (fresh_world 0 524288)))
          = [UploadWriteFailed 0]"
    unfolding d using t by (simp add: stalled_link_def fresh_world_def emit_def)
  from a b c show ?thesis by simp
qed

section \<open>The handshake\<close>

lemma exchanged_simps [simp]:
  "nwrites (exchanged w) = Suc (nwrites w)" "nreads (exchanged w) = Suc (nreads w)"
  "errs (exchanged w) = errs w"
  "io (exchanged w) = io w @ [WriteFrame [0x80, 0x43, 0x4D, 0x44], ReadData 64]"
  by (simp_all add: exchanged_def)

lemma noted_simps [simp]:
  "nwrites (noted E r w) = nwrites w" "nreads (noted E r w) = nreads w"
  "io (noted E r w) = io w"
  "errs (noted E r w) = errs w @ (if 0 < verbosity E then [IncorrectMagic (magic_of r)] else [])"
  by (simp_all add: noted_def log_err_def)

lemma log_err_simps [simp]:
  "nwrites (log_err m w) = nwrites w" "nreads (log_err m w) = nreads w"
  "errs (log_err m w) = errs w @ [m]"
  by (simp_all add: log_err_def)

lemma swap_be_word: "swap_endian (be_word b3 b2 b1 b0) = be_word b0 b1 b2 b3"
  using swap_load_Little [of b0 b1 b2 b3] by simp

lemma overlay_full: "length d = length buf \<Longrightarrow> overlay d buf = d"
  by (simp add: overlay_def)

text \<open>One exchange on a working link, and one pass through the loop of the handshake
  on a little-endian host.\<close>

lemma getver_exchange:
  assumes "link_up E w 0" and "length resp = 64"
  shows "device_send_cmd E DEV_CMD_GETVER 0 [] resp 64 w = (64, response E w 0, exchanged w)"
  using assms
  by (cases "rd_ret E (nreads w) 64")
     (simp add: device_send_cmd_def ftdi_write_frame_def ftdi_read_data_def cmd_frame_def
      DEV_CMD_GETVER_def overlay_full exchanged_def link_up_def response_def)

lemma gv_loop_match:
  assumes "link_up E w 0" and "length resp = 64"
    and "host E = Little" and "magic_of (response E w 0) = DEV_MAGIC"
  shows "get_version_loop E dev t resp w
           = (pack_variant (response E w 0 ! 0) (response E w 0 ! 1) (response E w 0 ! 2),
              dev\<lparr>variant := (response E w 0 ! 0, response E w 0 ! 1, response E w 0 ! 2)\<rparr>,
              exchanged w)"
  using assms(3,4)
  by (simp add: get_version_loop.simps [of E dev t resp w] getver_exchange [OF assms(1,2)]
      swap_be_word magic_of_def Let_def)

lemma gv_loop_mismatch:
  assumes "link_up E w 0" and "length resp = 64"
    and "host E = Little" and "magic_of (response E w 0) \<noteq> DEV_MAGIC"
  shows "get_version_loop E dev t resp w
           = (if 3 \<le> t
              then (- 1, dev, log_err CommunicationFailure (noted E (response E w 0) (exchanged w)))
              else get_version_loop E dev (Suc t) (response E w 0)
                     (noted E (response E w 0) (exchanged w)))"
  using assms(3,4)
  by (simp add: get_version_loop.simps [of E dev t resp w] getver_exchange [OF assms(1,2)]
      swap_be_word magic_of_def Let_def noted_def)

lemma gv_start:
  assumes "link_up E w 0"
  shows "device_get_version E dev w = get_version_loop E dev 0 (response E w 0) (exchanged w)"
  using getver_exchange [OF assms, of "map (stack E) [0..<64]"]
  by (simp add: device_get_version_def)

text \<open>Responses and link state seen from the world after one more exchange.\<close>

lemma response_shift [simp]:
  "response E (exchanged w) k = response E w (Suc k)"
  "response E (noted E r w) k = response E w k"
  by (simp_all add: response_def)

lemma link_up_shift [simp]:
  "link_up E (exchanged w) k = link_up E w (Suc k)"
  "link_up E (noted E r w) k = link_up E w k"
  by (simp_all add: link_up_def)

lemma length_response: "link_up E w k \<Longrightarrow> length (response E w k) = 64"
  by (simp add: link_up_def)



lemma after_mismatches_counts:
  "nwrites (after_mismatches E w j) = nwrites w + j + 1
   \<and> nreads (after_mismatches E w j) = nreads w + j + 1
   \<and> errs (after_mismatches E w j)
       = errs w @ (if 0 < verbosity E
                   then map (\<lambda>k. IncorrectMagic (magic_of (response E w k))) [1..<Suc j]
                   else [])"
  by (induction j) simp_all

lemma handshake_never:
  assumes le: "host E = Little" and up: "\<forall>k<5. link_up E w k"
    and no: "\<forall>k\<in>{1..4}. magic_of (response E w k) \<noteq> DEV_MAGIC"
  shows "device_get_version E dev w
           = (- 1, dev, log_err CommunicationFailure (after_mismatches E w 4))"
proof -
  have u: "link_up E w 0" "link_up E w (Suc 0)" "link_up E w (Suc (Suc 0))"
    "link_up E w (Suc (Suc (Suc 0)))" "link_up E w (Suc (Suc (Suc (Suc 0))))"
    using up [rule_format, of 0] up [rule_format, of 1] up [rule_format, of 2]
      up [rule_format, of 3] up [rule_format, of 4]
    by (simp_all add: numeral_eq_Suc)
  have n: "magic_of (response E w (Suc 0)) \<noteq> DEV_MAGIC"
    "magic_of (response E w (Suc (Suc 0))) \<noteq> DEV_MAGIC"
    "magic_of (response E w (Suc (Suc (Suc 0)))) \<noteq> DEV_MAGIC"
    "magic_of (response E w (Suc (Suc (Suc (Suc 0))))) \<noteq> DEV_MAGIC"
    using no [rule_format, of 1] no [rule_format, of 2] no [rule_format, of 3]
      no [rule_format, of 4]
    by (simp_all add: numeral_eq_Suc)
  show ?thesis
    by (simp add: gv_start gv_loop_mismatch u n le length_response numeral_eq_Suc)
qed

lemma handshake_accept:
  assumes le: "host E = Little" and up: "\<forall>k<5. link_up E w k"
    and j: "j \<in> {1..4}" and yes: "magic_of (response E w j) = DEV_MAGIC"
    and no: "\<forall>k\<in>{1..<j}. magic_of (response E w k) \<noteq> DEV_MAGIC"
  shows "device_get_version E dev w
           = (pack_variant (response E w j ! 0) (response E w j ! 1) (response E w j ! 2),
              dev\<lparr>variant := (response E w j ! 0, response E w j ! 1, response E w j ! 2)\<rparr>,
              exchanged (after_mismatches E w (j - 1)))"
proof -
  have u: "link_up E w 0" "link_up E w (Suc 0)" "link_up E w (Suc (Suc 0))"
    "link_up E w (Suc (Suc (Suc 0)))" "link_up E w (Suc (Suc (Suc (Suc 0))))"
    using up [rule_format, of 0] up [rule_format, of 1] up [rule_format, of 2]
      up [rule_format, of 3] up [rule_format, of 4]
    by (simp_all add: numeral_eq_Suc)
  from j consider "j = Suc 0" | "j = Suc (Suc 0)" | "j = Suc (Suc (Suc 0))"
    | "j = Suc (Suc (Suc (Suc 0)))"
    by (auto simp: numeral_eq_Suc le_Suc_eq)
  then show ?thesis
  proof cases
    case 1
    with yes show ?thesis
      by (simp add: gv_start gv_loop_match u le length_response)
  next
    case 2
    with no [rule_format, of 1] have n: "magic_of (response E w (Suc 0)) \<noteq> DEV_MAGIC"
      by simp
    from 2 yes show ?thesis
      by (simp add: gv_start gv_loop_mismatch gv_loop_match u n le length_response)
  next
    case 3
    with no [rule_format, of 1] no [rule_format, of 2]
    have n: "magic_of (response E w (Suc 0)) \<noteq> DEV_MAGIC"
      "magic_of (response E w (Suc (Suc 0))) \<noteq> DEV_MAGIC"
      by (simp_all add: numeral_eq_Suc)
    from 3 yes show ?thesis
      by (simp add: gv_start gv_loop_mismatch gv_loop_match u n le length_response)
  next
    case 4
    with no [rule_format, of 1] no [rule_format, of 2] no [rule_format, of 3]
    have n: "magic_of (response E w (Suc 0)) \<noteq> DEV_MAGIC"
      "magic_of (response E w (Suc (Suc 0))) \<noteq> DEV_MAGIC"
      "magic_of (response E w (Suc (Suc (Suc 0)))) \<noteq> DEV_MAGIC"
      by (simp_all add: numeral_eq_Suc)
    from 4 yes show ?thesis
      by (simp add: gv_start gv_loop_mismatch gv_loop_match u n le length_response)
  qed
qed




text \<open>
  C9. The value returned on success is the three variant bytes packed into the top
  three bytes of an \<open>int\<close>. It is not always positive: for the variant bytes 0, 0, 0 a
  call that found the magic word and stored the variant returns 0, and for a first
  byte of 0x80 or more the value is negative. \<open>setup_device\<close> takes both for a
  failure.
\<close>

theorem get_version_nonpositive_on_success:
  "device_get_version (reply_env 0 (\<lambda>k. magic_reply 0 0 0))
     \<lparr>version = 2, variant = (0x41, 0x41, 0x41)\<rparr> (fresh_world 0 0)
     = (0, \<lparr>version = 2, variant = (0, 0, 0)\<rparr>,
        \<lparr>io = [WriteFrame [0x80, 0x43, 0x4D, 0x44], ReadData 64,
               WriteFrame [0x80, 0x43, 0x4D, 0x44], ReadData 64],
          errs = [], nwrites = 2, nreads = 2, fstream = \<lparr>fpos = 0, flen = 0\<rparr>\<rparr>)
   \<and> fst (device_get_version (reply_env 0 (\<lambda>k. magic_reply 0x80 0x42 0x20))
            \<lparr>version = 2, variant = (0x41, 0x41, 0x41)\<rparr> (fresh_world 0 0))
       = - 2143150080
   \<and> variant (fst (snd (device_get_version (reply_env 0 (\<lambda>k. magic_reply 0x80 0x42 0x20))
            \<lparr>version = 2, variant = (0x41, 0x41, 0x41)\<rparr> (fresh_world 0 0))))
       = (0x80, 0x42, 0x20)"
  by code_simp

section \<open>The totals of a transfer\<close>

text \<open>
  C1. A transfer of 524800 bytes (512 KiB + 512 bytes) on a link that moves every
  byte asked for: the chunk size is 524288, the second pass asks for a whole chunk
  again, and the call returns 0 with \<open>offset\<close> and \<open>readPos\<close> at 1048576, not 524800.
  The download has then written 1048576 bytes to its file.
\<close>

theorem transfer_overshoots_size:
  "ret_of (device_upload (full_link Little) 524800 0 1 (fresh_world 0 524800)) = 0
   \<and> offset_of (device_upload (full_link Little) 524800 0 1 (fresh_world 0 524800)) = 1048576
   \<and> moved_of (device_upload (full_link Little) 524800 0 1 (fresh_world 0 524800)) = 1048576
   \<and> bulk_lengths (io_of (device_upload (full_link Little) 524800 0 1 (fresh_world 0 524800)))
       = [524288, 524288]
   \<and> ret_of (device_download (full_link Little) 524800 0 1 (fresh_world 0 0)) = 0
   \<and> offset_of (device_download (full_link Little) 524800 0 1 (fresh_world 0 0)) = 1048576
   \<and> moved_of (device_download (full_link Little) 524800 0 1 (fresh_world 0 0)) = 1048576
   \<and> flen (fstream (world_of (device_download (full_link Little) 524800 0 1 (fresh_world 0 0))))
       = 1048576"
  by code_simp

end
